theory Spec2Isabelle
  imports Complex_Main "HOL-Library.Sublist"
begin

section \<open>GitHub App service: credential signer and installation cache\<close>

text \<open>
  Embedding of the class \<open>GitHubAppService\<close> (lib/github-app). Times are the integer
  millisecond readings of \<open>Date.now()\<close>. The two platform operations the class calls,
  \<open>jwt.sign\<close> and \<open>fetch\<close>, are parameters gathered in a record; each may
  throw, which is the left injection of a sum. Every HTTP request the class issues is
  appended to a log, so that "no remote call" is the empty log.
\<close>

datatype error =
    NotConfigured
  | LookupFailed nat string
  | TokenFailed nat string
  | Thrown string

record GitHubAppConfig =
  appId :: string
  privateKey :: string

record InstallationCache =
  installationId :: nat
  expiresAt :: int

record service =
  config :: GitHubAppConfig
  installationCache :: "string \<rightharpoonup> InstallationCache"

record jwt_payload =
  iat :: int
  exp :: int
  iss :: string

record 'a response =
  ok :: bool
  status :: nat
  text_body :: string
  json_body :: "error + 'a"

datatype request =
    GetInstallation string string string
  | PostAccessTokens nat string

record platform =
  sign :: "jwt_payload \<Rightarrow> string \<Rightarrow> string \<Rightarrow> error + string"
  fetch_installation :: "string \<Rightarrow> string \<Rightarrow> string \<Rightarrow> error + nat response"
  fetch_access_token :: "nat \<Rightarrow> string \<Rightarrow> error + string response"

record readings =
  at_check :: int
  at_sign :: int
  at_store :: int

definition CACHE_TTL :: int where
  "CACHE_TTL = 24 * 60 * 60 * 1000"

definition constructor :: "string option \<Rightarrow> string option \<Rightarrow> service" where
  "constructor env_app_id env_private_key =
     \<lparr>config = \<lparr>appId = (case env_app_id of None \<Rightarrow> [] | Some a \<Rightarrow> a),
                 privateKey = (case env_private_key of None \<Rightarrow> [] | Some k \<Rightarrow> k)\<rparr>,
      installationCache = Map.empty\<rparr>"

definition generateJWT :: "platform \<Rightarrow> service \<Rightarrow> int \<Rightarrow> error + string" where
  "generateJWT pf svc date_now =
     (if appId (config svc) = [] \<or> privateKey (config svc) = [] then Inl NotConfigured
      else let now = date_now div 1000;
               payload = \<lparr>iat = now, exp = now + 600, iss = appId (config svc)\<rparr>
           in sign pf payload (privateKey (config svc)) ''RS256'')"

definition isConfigured :: "service \<Rightarrow> bool" where
  "isConfigured svc = (appId (config svc) \<noteq> [] \<and> privateKey (config svc) \<noteq> [])"

definition fetchInstallationIdFromGitHub ::
  "platform \<Rightarrow> service \<Rightarrow> int \<Rightarrow> string \<Rightarrow> string \<Rightarrow> (error + nat) \<times> request list" where
  "fetchInstallationIdFromGitHub pf svc date_now owner repo =
     (if appId (config svc) = [] \<or> privateKey (config svc) = [] then (Inl NotConfigured, [])
      else case generateJWT pf svc date_now of
             Inl e \<Rightarrow> (Inl e, [])
           | Inr jwt \<Rightarrow>
               (case fetch_installation pf owner repo jwt of
                  Inl e \<Rightarrow> (Inl e, [GetInstallation owner repo jwt])
                | Inr resp \<Rightarrow>
                    (if \<not> ok resp
                     then (Inl (LookupFailed (status resp) (text_body resp)),
                           [GetInstallation owner repo jwt])
                     else (json_body resp, [GetInstallation owner repo jwt]))))"

definition getInstallationIdForRepo ::
  "platform \<Rightarrow> readings \<Rightarrow> service \<Rightarrow> string \<Rightarrow> string
     \<Rightarrow> (error + nat) \<times> service \<times> request list" where
  "getInstallationIdForRepo pf rd svc owner repo =
     (let cacheKey = owner;
          cached = installationCache svc cacheKey
      in case (case cached of None \<Rightarrow> None
               | Some c \<Rightarrow> if expiresAt c > at_check rd then Some c else None) of
           Some c \<Rightarrow> (Inr (installationId c), svc, [])
         | None \<Rightarrow>
             (case fetchInstallationIdFromGitHub pf svc (at_sign rd) owner repo of
                (Inl e, reqs) \<Rightarrow> (Inl e, svc, reqs)
              | (Inr fetched, reqs) \<Rightarrow>
                  (Inr fetched,
                   svc\<lparr>installationCache := (installationCache svc)(cacheKey \<mapsto>
                          \<lparr>installationId = fetched, expiresAt = at_store rd + CACHE_TTL\<rparr>)\<rparr>,
                   reqs)))"

definition clearInstallationCache :: "service \<Rightarrow> string \<Rightarrow> service" where
  "clearInstallationCache svc owner =
     svc\<lparr>installationCache := (installationCache svc)(owner := None)\<rparr>"

definition clearAllInstallationCache :: "service \<Rightarrow> service" where
  "clearAllInstallationCache svc = svc\<lparr>installationCache := Map.empty\<rparr>"

text \<open>
  The \<open>installation\<close> branch of the webhook handler: on action \<open>deleted\<close> it walks
  \<open>payload.repositories\<close> and clears the cache for the first component of each
  \<open>full_name.split('/')\<close>.
\<close>

definition split_owner :: "string \<Rightarrow> string" where
  "split_owner full_name = takeWhile (\<lambda>c. c \<noteq> CHR ''/'') full_name"

fun clear_repositories :: "service \<Rightarrow> string list \<Rightarrow> service" where
  "clear_repositories svc [] = svc"
| "clear_repositories svc (full_name # rest) =
     clear_repositories (clearInstallationCache svc (split_owner full_name)) rest"

definition installation_event ::
  "service \<Rightarrow> string option \<Rightarrow> string list option \<Rightarrow> service" where
  "installation_event svc action repositories =
     (if action = Some ''deleted''
      then clear_repositories svc (case repositories of None \<Rightarrow> [] | Some rs \<Rightarrow> rs)
      else svc)"

text \<open>A concrete platform and service used to exercise the definitions.\<close>

definition demo_platform :: platform where
  "demo_platform =
     \<lparr>sign = (\<lambda>p k alg. Inr ''assertion''),
      fetch_installation = (\<lambda>owner repo jwt.
         if owner = ''octo''
         then Inr \<lparr>ok = True, status = 200, text_body = [], json_body = Inr 42\<rparr>
         else Inr \<lparr>ok = False, status = 404, text_body = ''Not Found'',
                   json_body = Inl (Thrown ''json'')\<rparr>),
      fetch_access_token = (\<lambda>i jwt.
         Inr \<lparr>ok = True, status = 201, text_body = [], json_body = Inr ''token''\<rparr>)\<rparr>"

definition demo_service :: service where
  "demo_service = constructor (Some ''12345'') (Some ''KEY'')"

definition demo_readings :: "int \<Rightarrow> readings" where
  "demo_readings t = \<lparr>at_check = t, at_sign = t + 1, at_store = t + 2\<rparr>"

definition demo_cached :: service where
  "demo_cached = demo_service\<lparr>installationCache :=
     [''octo'' \<mapsto> \<lparr>installationId = 42, expiresAt = 1002 + CACHE_TTL\<rparr>]\<rparr>"

section \<open>Response parser\<close>

text \<open>
  Embedding of \<open>parseAIResponse\<close> (lib/ai-review). A string is a list of code units
  below 256, and white space is the white space of \<open>\s\<close> and \<open>trim\<close> in that range:
  tab, line feed, vertical tab, form feed, carriage return, space and no-break space. The
  values \<open>JSON.parse\<close> produces are the datatype \<open>json\<close>; a JavaScript number is a
  rational or one of the three special values, which is all that \<open>Math.min\<close>,
  \<open>Math.max\<close> and truthiness observe. \<open>JSON.parse\<close> itself and the two numeric
  conversions of the language are parameters.
\<close>

datatype number = Fin rat | PosInf | NegInf | NaN

datatype json =
    JNull
  | JBool bool
  | JNum number
  | JStr string
  | JArr "json list"
  | JObj "(string \<times> json) list"

record ecma =
  JSON_parse :: "string \<Rightarrow> json option"
  StringToNumber :: "string \<Rightarrow> number"
  NumberToString :: "number \<Rightarrow> string"

definition TypeError :: error where
  "TypeError = Thrown ''TypeError''"

definition SyntaxError :: error where
  "SyntaxError = Thrown ''SyntaxError''"

definition bind_err :: "error + 'a \<Rightarrow> ('a \<Rightarrow> error + 'b) \<Rightarrow> error + 'b" where
  "bind_err m f = (case m of Inl e \<Rightarrow> Inl e | Inr v \<Rightarrow> f v)"

subsection \<open>Values: truthiness, property access, conversions\<close>

fun truthy :: "json \<Rightarrow> bool" where
  "truthy JNull = False"
| "truthy (JBool b) = b"
| "truthy (JNum (Fin q)) = (q \<noteq> 0)"
| "truthy (JNum NaN) = False"
| "truthy (JNum PosInf) = True"
| "truthy (JNum NegInf) = True"
| "truthy (JStr s) = (s \<noteq> [])"
| "truthy (JArr xs) = True"
| "truthy (JObj kvs) = True"

text \<open>\<open>a || b\<close> where \<open>a\<close> may be \<open>undefined\<close> (\<open>None\<close>).\<close>

definition or_else :: "json option \<Rightarrow> json \<Rightarrow> json" where
  "or_else a b = (case a of None \<Rightarrow> b | Some v \<Rightarrow> if truthy v then v else b)"

definition or_undef :: "json option \<Rightarrow> json option \<Rightarrow> json option" where
  "or_undef a b = (case a of None \<Rightarrow> b | Some v \<Rightarrow> if truthy v then Some v else b)"

text \<open>
  \<open>v.key\<close> for the keys the parser reads: \<open>null\<close> throws, an object yields its own
  property (the last of duplicate keys, as \<open>JSON.parse\<close> keeps it), anything else
  yields \<open>undefined\<close>.
\<close>

fun get_prop :: "json \<Rightarrow> string \<Rightarrow> error + json option" where
  "get_prop JNull k = Inl TypeError"
| "get_prop (JObj kvs) k = Inr (map_of (rev kvs) k)"
| "get_prop v k = Inr None"

fun to_string :: "ecma \<Rightarrow> json \<Rightarrow> error + string"
  and join_elems :: "ecma \<Rightarrow> json list \<Rightarrow> error + string" where
  "to_string E JNull = Inr ''null''"
| "to_string E (JBool b) = Inr (if b then ''true'' else ''false'')"
| "to_string E (JNum n) = Inr (NumberToString E n)"
| "to_string E (JStr s) = Inr s"
| "to_string E (JArr xs) = join_elems E xs"
| "to_string E (JObj kvs) =
     (if map_of kvs ''toString'' \<noteq> None then Inl TypeError else Inr ''[object Object]'')"
| "join_elems E [] = Inr []"
| "join_elems E (x # xs) =
     bind_err (if x = JNull then Inr [] else to_string E x) (\<lambda>s.
       if xs = [] then Inr s
       else bind_err (join_elems E xs) (\<lambda>rest. Inr (s @ '','' @ rest)))"

fun to_number :: "ecma \<Rightarrow> json \<Rightarrow> error + number" where
  "to_number E JNull = Inr (Fin 0)"
| "to_number E (JBool b) = Inr (Fin (if b then 1 else 0))"
| "to_number E (JNum n) = Inr n"
| "to_number E (JStr s) = Inr (StringToNumber E s)"
| "to_number E (JArr xs) = bind_err (join_elems E xs) (\<lambda>s. Inr (StringToNumber E s))"
| "to_number E (JObj kvs) =
     (if map_of kvs ''toString'' \<noteq> None then Inl TypeError else Inr NaN)"

fun math_min :: "number \<Rightarrow> number \<Rightarrow> number" where
  "math_min NaN y = NaN"
| "math_min x NaN = NaN"
| "math_min NegInf y = NegInf"
| "math_min x NegInf = NegInf"
| "math_min PosInf y = y"
| "math_min x PosInf = x"
| "math_min (Fin a) (Fin b) = Fin (min a b)"

fun math_max :: "number \<Rightarrow> number \<Rightarrow> number" where
  "math_max NaN y = NaN"
| "math_max x NaN = NaN"
| "math_max PosInf y = PosInf"
| "math_max x PosInf = PosInf"
| "math_max NegInf y = y"
| "math_max x NegInf = x"
| "math_max (Fin a) (Fin b) = Fin (max a b)"

fun digits :: "nat \<Rightarrow> string" where
  "digits n = (if n < 10 then [char_of (48 + n)]
               else digits (n div 10) @ [char_of (48 + n mod 10)])"

declare digits.simps [simp del]

subsection \<open>Cleaning the raw text\<close>

definition is_space :: "char \<Rightarrow> bool" where
  "is_space c =
     (c \<in> set [CHR 0x09, CHR 0x0A, CHR 0x0B, CHR 0x0C, CHR 0x0D, CHR '' '', CHR 0xA0])"

definition trim :: "string \<Rightarrow> string" where
  "trim s = rev (dropWhile is_space (rev (dropWhile is_space s)))"

text \<open>Index of the first \<open></think>\<close> in a string.\<close>

fun find_close :: "string \<Rightarrow> nat option" where
  "find_close [] = None"
| "find_close (c # cs) =
     (if prefix ''</think>'' (c # cs) then Some 0 else map_option Suc (find_close cs))"

text \<open>
  \<open>replace(/<think>[\s\S]*?<\/think>/g, '')\<close>: scanning from the left, an opening tag
  with a closing tag somewhere after it is removed together with everything up to the
  first such closing tag; the first argument counts the characters of a match still to
  be skipped.
\<close>

fun strip_think :: "nat \<Rightarrow> string \<Rightarrow> string" where
  "strip_think n [] = []"
| "strip_think (Suc n) (c # cs) = strip_think n cs"
| "strip_think 0 (c # cs) =
     (if prefix ''<think>'' (c # cs)
      then (case find_close (drop 6 cs) of
              Some k \<Rightarrow> strip_think (k + 14) cs
            | None \<Rightarrow> c # strip_think 0 cs)
      else c # strip_think 0 cs)"

text \<open>\<open>replace(/```json\s*/g, '')\<close>.\<close>

function strip_fence_open :: "string \<Rightarrow> string" where
  "strip_fence_open [] = []"
| "strip_fence_open (c # cs) =
     (if prefix ''```json'' (c # cs)
      then strip_fence_open (dropWhile is_space (drop 6 cs))
      else c # strip_fence_open cs)"
  by pat_completeness auto
termination
proof (relation "measure length")
  fix c :: char and cs :: string
  have "length (dropWhile is_space (drop 6 cs)) \<le> length (drop 6 cs)"
    by (rule length_dropWhile_le)
  then show "(dropWhile is_space (drop 6 cs), c # cs) \<in> measure length"
    by simp
qed simp_all

text \<open>\<open>replace(/```\s*$/g, '')\<close>: a fence followed only by white space up to the end.\<close>

definition strip_fence_close :: "string \<Rightarrow> string" where
  "strip_fence_close s =
     (let y = dropWhile is_space (rev s)
      in if prefix ''```'' y then rev (drop 3 y) else s)"

definition cleanResponse :: "string \<Rightarrow> string" where
  "cleanResponse response =
     trim (strip_fence_close (strip_fence_open (strip_think 0 (trim response))))"

text \<open>\<open>match(/\{[\s\S]*\}/)\<close>: from the first opening brace to the last closing brace after it.\<close>

definition json_match :: "string \<Rightarrow> string option" where
  "json_match s =
     (case dropWhile (\<lambda>c. c \<noteq> CHR ''{'') s of
        [] \<Rightarrow> None
      | b # after \<Rightarrow>
          (case dropWhile (\<lambda>c. c \<noteq> CHR ''}'') (rev after) of
             [] \<Rightarrow> None
           | inner \<Rightarrow> Some (b # rev inner)))"

subsection \<open>Building the structured result\<close>

record item =
  item_id :: json
  item_type :: json
  title :: json
  description :: json
  severity :: json
  item_file :: "json option"
  item_line :: "json option"
  item_code :: "json option"
  suggestedFix :: "json option"

record AIReview =
  summary :: json
  score :: number
  suggestions :: "item list"
  issues :: "item list"
  positiveAspects :: json

definition make_item ::
  "string \<Rightarrow> string \<Rightarrow> string \<Rightarrow> string \<Rightarrow> string \<Rightarrow> json \<Rightarrow> nat \<Rightarrow> error + item" where
  "make_item id_prefix default_type default_title default_description default_severity s index =
     bind_err (get_prop s ''id'') (\<lambda>p_id.
     bind_err (get_prop s ''type'') (\<lambda>p_type.
     bind_err (get_prop s ''title'') (\<lambda>p_title.
     bind_err (get_prop s ''message'') (\<lambda>p_message.
     bind_err (get_prop s ''description'') (\<lambda>p_description.
     bind_err (get_prop s ''severity'') (\<lambda>p_severity.
     bind_err (get_prop s ''file'') (\<lambda>p_file.
     bind_err (get_prop s ''line'') (\<lambda>p_line.
     bind_err (get_prop s ''code'') (\<lambda>p_code.
     bind_err (get_prop s ''suggestedFix'') (\<lambda>p_fix.
       Inr \<lparr>item_id = or_else p_id (JStr (id_prefix @ digits (index + 1))),
            item_type = or_else p_type (JStr default_type),
            title = or_else (or_undef p_title p_message) (JStr default_title),
            description = or_else (or_undef p_description p_message) (JStr default_description),
            severity = or_else p_severity (JStr default_severity),
            item_file = p_file, item_line = p_line, item_code = p_code, suggestedFix = p_fix\<rparr>))))))))))"

fun map_index :: "(json \<Rightarrow> nat \<Rightarrow> error + item) \<Rightarrow> nat \<Rightarrow> json list \<Rightarrow> error + item list" where
  "map_index f index [] = Inr []"
| "map_index f index (x # xs) =
     bind_err (f x index) (\<lambda>y. bind_err (map_index f (Suc index) xs) (\<lambda>ys. Inr (y # ys)))"

text \<open>\<open>(v || []).map(f)\<close>: only an array has a callable \<open>map\<close>.\<close>

definition array_map ::
  "(json \<Rightarrow> nat \<Rightarrow> error + item) \<Rightarrow> json option \<Rightarrow> error + item list" where
  "array_map f v =
     (case or_else v (JArr []) of JArr xs \<Rightarrow> map_index f 0 xs | _ \<Rightarrow> Inl TypeError)"

definition build_review :: "ecma \<Rightarrow> json \<Rightarrow> error + AIReview" where
  "build_review E parsed =
     bind_err (get_prop parsed ''summary'') (\<lambda>p_summary.
     bind_err (get_prop parsed ''score'') (\<lambda>p_score.
     bind_err (to_number E (or_else p_score (JNum (Fin 0)))) (\<lambda>n.
     bind_err (get_prop parsed ''suggestions'') (\<lambda>p_suggestions.
     bind_err (array_map (make_item ''suggestion_'' ''improvement'' ''Suggestion''
                 ''Code improvement suggestion'' ''low'') p_suggestions) (\<lambda>ss.
     bind_err (get_prop parsed ''issues'') (\<lambda>p_issues.
     bind_err (array_map (make_item ''issue_'' ''bug'' ''Issue''
                 ''Code issue found'' ''medium'') p_issues) (\<lambda>is.
     bind_err (get_prop parsed ''positiveAspects'') (\<lambda>p_positive.
       Inr \<lparr>summary = or_else p_summary (JStr ''No summary provided''),
            score = math_max (Fin 0) (math_min (Fin 100) n),
            suggestions = ss,
            issues = is,
            positiveAspects = or_else p_positive (JArr [])\<rparr>))))))))"

definition fallback_review :: AIReview where
  "fallback_review =
     \<lparr>summary = JStr ''Unable to parse AI review response'', score = Fin 0,
      suggestions = [], issues = [], positiveAspects = JArr []\<rparr>"

definition parse_and_build :: "ecma \<Rightarrow> string \<Rightarrow> error + AIReview" where
  "parse_and_build E s =
     (case JSON_parse E s of None \<Rightarrow> Inl SyntaxError | Some parsed \<Rightarrow> build_review E parsed)"

text \<open>
  The body of the outer \<open>try\<close>: \<open>Inr (Some r)\<close> is \<open>return r\<close>, \<open>Inr None\<close> is
  falling out of the inner \<open>catch\<close> without a match, \<open>Inl\<close> is an exception thrown
  from the inner \<open>catch\<close> block.
\<close>

definition parse_attempt :: "ecma \<Rightarrow> string \<Rightarrow> error + AIReview option" where
  "parse_attempt E response =
     (let cleanedResponse = cleanResponse response
      in case parse_and_build E cleanedResponse of
           Inr r \<Rightarrow> Inr (Some r)
         | Inl directParseError \<Rightarrow>
             (case json_match cleanedResponse of
                None \<Rightarrow> Inr None
              | Some m \<Rightarrow> bind_err (parse_and_build E m) (\<lambda>r. Inr (Some r))))"

definition parseAIResponse :: "ecma \<Rightarrow> string \<Rightarrow> error + AIReview" where
  "parseAIResponse E response =
     (case parse_attempt E response of
        Inr (Some r) \<Rightarrow> Inr r
      | Inr None \<Rightarrow> Inr fallback_review
      | Inl e \<Rightarrow> Inr fallback_review)"

text \<open>
  A table standing in for \<open>JSON.parse\<close> on the few texts the concrete checks use; every
  other text is a syntax error.
\<close>

definition demo_ecma :: ecma where
  "demo_ecma =
     \<lparr>JSON_parse = (\<lambda>s.
        if s = ''{\"score\":{}}'' then Some (JObj [(''score'', JObj [])])
        else if s = ''{\"summary\":\"ok\",\"score\":150}''
          then Some (JObj [(''summary'', JStr ''ok''), (''score'', JNum (Fin 150))])
        else if s = ''{\"positiveAspects\":7}''
          then Some (JObj [(''positiveAspects'', JNum (Fin 7))])
        else None),
      StringToNumber = (\<lambda>s. NaN),
      NumberToString = (\<lambda>n. ''NaN'')\<rparr>"

text \<open>A score between 0 and 100.\<close>

definition projr_opt :: "'e + 'a \<Rightarrow> 'a option" where
  "projr_opt m = (case m of Inl e \<Rightarrow> None | Inr v \<Rightarrow> Some v)"

definition score_in_range :: "number \<Rightarrow> bool" where
  "score_in_range n = (case n of Fin q \<Rightarrow> 0 \<le> q \<and> q \<le> 100 | _ \<Rightarrow> False)"









text \<open>
  The wrappings a generator puts around its payload: a code fence, tagged \<open>json\<close> or
  untagged, with white space inside it, and a reasoning block in front, followed by white
  space. A structured
  payload is a text delimited by braces.
\<close>

definition fence_wrap :: "string \<Rightarrow> string \<Rightarrow> string \<Rightarrow> string" where
  "fence_wrap ws1 ws2 p = ''```json'' @ ws1 @ p @ ws2 @ ''```''"

definition plain_fence_wrap :: "string \<Rightarrow> string \<Rightarrow> string \<Rightarrow> string" where
  "plain_fence_wrap ws1 ws2 p = ''```'' @ ws1 @ p @ ws2 @ ''```''"

definition think_wrap :: "string \<Rightarrow> string \<Rightarrow> string \<Rightarrow> string" where
  "think_wrap r ws p = ''<think>'' @ r @ ''</think>'' @ ws @ p"

definition braced :: "string \<Rightarrow> bool" where
  "braced p \<longleftrightarrow> p \<noteq> [] \<and> hd p = CHR ''{'' \<and> last p = CHR ''}''"

section \<open>Webhook handler and review orchestration\<close>

text \<open>
  Embedding of the webhook route (\<open>POST\<close>, \<open>processAICodeReview\<close>,
  \<open>updateReviewStatus\<close>, \<open>postGitHubComment\<close>, \<open>verifyWebhookSignature\<close>) and of
  \<open>generateAICodeReview\<close>. The document store is an in-memory collection; whether it
  can be reached (\<open>connectDB\<close> and the operation succeed) is a flag of the environment,
  one for the request and one for the job. The remote calls, the language-model
  backends, the construction of the prompt, the HMAC and the rendering of the comment
  text are parameters. The background job that \<open>POST\<close> starts is returned as a value,
  and \<open>processAICodeReview\<close> runs it.
\<close>

subsection \<open>Signature check\<close>


text \<open>\<open>s || d\<close> for an environment value.\<close>

definition or_default :: "string option \<Rightarrow> string \<Rightarrow> string" where
  "or_default s d = (case s of None \<Rightarrow> d | Some v \<Rightarrow> if v = [] then d else v)"


subsection \<open>The document store\<close>

datatype review_status = Pending | Completed | Failed

record stored_review =
  sr_summary :: json
  sr_score :: number
  sr_suggestions :: "item list"
  sr_issues :: "item list"
  sr_positiveAspects :: "json option"

record CodeReview =
  doc_id :: nat
  repositoryId :: nat
  pullRequestId :: nat
  repositoryName :: string
  doc_status :: review_status
  review :: "stored_review option"
  updatedAt :: int

record user =
  repositories :: "string list"

record system =
  users :: "user list"
  reviews :: "CodeReview list"
  next_id :: nat
  app_service :: service


definition findById :: "system \<Rightarrow> nat \<Rightarrow> CodeReview option" where
  "findById sys i = find (\<lambda>r. doc_id r = i) (reviews sys)"

definition findByIdAndUpdate :: "system \<Rightarrow> nat \<Rightarrow> (CodeReview \<Rightarrow> CodeReview) \<Rightarrow> system" where
  "findByIdAndUpdate sys i upd =
     sys\<lparr>reviews := map (\<lambda>r. if doc_id r = i then upd r else r) (reviews sys)\<rparr>"

text \<open>
  \<open>updateReviewStatus\<close> catches and logs whatever the store throws: with the store out
  of reach nothing is written.
\<close>

definition updateReviewStatus ::
  "bool \<Rightarrow> int \<Rightarrow> system \<Rightarrow> nat \<Rightarrow> review_status \<Rightarrow> stored_review \<Rightarrow> system" where
  "updateReviewStatus reachable now sys reviewId st reviewData =
     (if reachable
      then findByIdAndUpdate sys reviewId
             (\<lambda>r. r\<lparr>doc_status := st, review := Some reviewData, updatedAt := now\<rparr>)
      else sys)"

definition literal_review :: "string \<Rightarrow> rat \<Rightarrow> stored_review" where
  "literal_review text n =
     \<lparr>sr_summary = JStr text, sr_score = Fin n, sr_suggestions = [], sr_issues = [],
      sr_positiveAspects = None\<rparr>"

definition of_AIReview :: "AIReview \<Rightarrow> stored_review" where
  "of_AIReview r =
     \<lparr>sr_summary = summary r, sr_score = score r, sr_suggestions = suggestions r,
      sr_issues = issues r, sr_positiveAspects = Some (positiveAspects r)\<rparr>"

subsection \<open>Generating the review\<close>

record FileContent =
  filename :: string
  content :: string
  patch :: "string option"
  additions :: nat
  deletions :: nat

record PullRequest =
  pr_title :: string
  pr_description :: "string option"
  pr_number :: nat

record ReviewRequest =
  rq_repository :: string
  rq_pullRequest :: PullRequest
  rq_files :: "FileContent list"

text \<open>
  A backend answers a prompt with a thrown error (network failure, non-ok status), with
  no text, or with the generated text. Constructing the OpenAI client and building the
  prompt may throw as well.
\<close>

record backends =
  AI_PROVIDER :: "string option"
  HUGGINGFACE_PROVIDER :: "string option"
  new_OpenAI :: "error + unit"
  buildReviewPrompt :: "ReviewRequest \<Rightarrow> error + string"
  openai :: "string \<Rightarrow> error + string option"
  ollama :: "string \<Rightarrow> error + string option"
  huggingface :: "string \<Rightarrow> error + string option"

definition generation_failed :: AIReview where
  "generation_failed =
     \<lparr>summary = JStr ''Failed to generate AI review due to an error'', score = Fin 0,
      suggestions = [], issues = [], positiveAspects = JArr []\<rparr>"

definition generateOpenAIReview :: "ecma \<Rightarrow> backends \<Rightarrow> ReviewRequest \<Rightarrow> error + AIReview" where
  "generateOpenAIReview E B request =
     bind_err (new_OpenAI B) (\<lambda>client.
     bind_err (buildReviewPrompt B request) (\<lambda>prompt.
       case (case openai B prompt of
               Inl e \<Rightarrow> Inl e
             | Inr None \<Rightarrow> Inl (Thrown ''No response from OpenAI'')
             | Inr (Some response) \<Rightarrow>
                 (if response = [] then Inl (Thrown ''No response from OpenAI'')
                  else parseAIResponse E response)) of
         Inl e \<Rightarrow> Inr generation_failed
       | Inr r \<Rightarrow> Inr r))"

definition generateOllamaReview :: "ecma \<Rightarrow> backends \<Rightarrow> ReviewRequest \<Rightarrow> error + AIReview" where
  "generateOllamaReview E B request =
     bind_err (buildReviewPrompt B request) (\<lambda>prompt.
       case (case ollama B prompt of
               Inl e \<Rightarrow> Inl e
             | Inr None \<Rightarrow> Inr fallback_review
             | Inr (Some response) \<Rightarrow> parseAIResponse E response) of
         Inl e \<Rightarrow> Inr generation_failed
       | Inr r \<Rightarrow> Inr r)"

definition generateHuggingFaceReview :: "ecma \<Rightarrow> backends \<Rightarrow> ReviewRequest \<Rightarrow> error + AIReview" where
  "generateHuggingFaceReview E B request =
     bind_err (buildReviewPrompt B request) (\<lambda>prompt.
      let provider = or_default (HUGGINGFACE_PROVIDER B) ''novita''
      in if provider \<noteq> ''novita''
         then Inr \<lparr>summary = JStr (''Hugging Face provider '' @ [CHR 0x27] @ provider @ [CHR 0x27]
                      @ '' is not supported. Set HUGGINGFACE_PROVIDER=novita for Novita API.''),
                   score = Fin 0, suggestions = [], issues = [], positiveAspects = JArr []\<rparr>
         else (case huggingface B prompt of
                 Inl e \<Rightarrow> Inl e
               | Inr None \<Rightarrow> Inl (Thrown ''No response content from Hugging Face API'')
               | Inr (Some responseText) \<Rightarrow>
                   (if responseText = []
                    then Inl (Thrown ''No response content from Hugging Face API'')
                    else parseAIResponse E responseText)))"

definition generateAICodeReview :: "ecma \<Rightarrow> backends \<Rightarrow> ReviewRequest \<Rightarrow> error + AIReview" where
  "generateAICodeReview E B request =
     (let aiProvider = or_default (AI_PROVIDER B) ''openai''
      in if aiProvider = ''openai'' then generateOpenAIReview E B request
         else if aiProvider = ''ollama'' then generateOllamaReview E B request
         else if aiProvider = ''huggingface'' then generateHuggingFaceReview E B request
         else generateOpenAIReview E B request)"

subsection \<open>The review job\<close>

record pr_file =
  pf_filename :: string
  pf_patch :: "string option"
  pf_additions :: nat
  pf_deletions :: nat

record pull_request =
  pr_id :: nat
  number :: nat
  pull_title :: string
  pull_body :: "string option"
  head_sha :: string

record remote =
  github :: platform
  list_files :: "string \<Rightarrow> nat \<Rightarrow> string \<Rightarrow> error + pr_file list response"
  get_content :: "string \<Rightarrow> string \<Rightarrow> string \<Rightarrow> string \<Rightarrow> error + string response"
  post_comment :: "string \<Rightarrow> nat \<Rightarrow> string \<Rightarrow> string \<Rightarrow> error + unit response"
  generateGitHubComment :: "AIReview \<Rightarrow> error + string"
  language :: ecma
  models :: backends
  job_store_reachable :: bool
  cache_clock :: readings
  direct_clock :: int
  token_clock :: int
  update_clock :: int

definition second_component :: "string \<Rightarrow> string" where
  "second_component full_name =
     (case dropWhile (\<lambda>c. c \<noteq> CHR ''/'') full_name of
        [] \<Rightarrow> ''undefined''
      | slash # rest \<Rightarrow> takeWhile (\<lambda>c. c \<noteq> CHR ''/'') rest)"

definition getInstallationTokenForRepo ::
  "platform \<Rightarrow> readings \<Rightarrow> int \<Rightarrow> service \<Rightarrow> string \<Rightarrow> string \<Rightarrow> (error + string) \<times> service" where
  "getInstallationTokenForRepo pf rd t svc owner repo =
     (case getInstallationIdForRepo pf rd svc owner repo of
        (Inl e, svc', reqs) \<Rightarrow> (Inl e, svc')
      | (Inr fetched, svc', reqs) \<Rightarrow>
          (case generateJWT pf svc' t of
             Inl e \<Rightarrow> (Inl e, svc')
           | Inr jwt \<Rightarrow>
               (case fetch_access_token pf fetched jwt of
                  Inl e \<Rightarrow> (Inl e, svc')
                | Inr resp \<Rightarrow>
                    (if \<not> ok resp then (Inl (TokenFailed (status resp) (text_body resp)), svc')
                     else (json_body resp, svc')))))"

text \<open>The exchange of the installation id carried by the event, inside its own \<open>try\<close>.\<close>

definition direct_exchange :: "remote \<Rightarrow> service \<Rightarrow> nat \<Rightarrow> error + string" where
  "direct_exchange R svc installation_id =
     (case generateJWT (github R) svc (direct_clock R) of
        Inl e \<Rightarrow> Inl e
      | Inr jwt \<Rightarrow>
          (case fetch_access_token (github R) installation_id jwt of
             Inl e \<Rightarrow> Inl e
           | Inr tokenResponse \<Rightarrow>
               (if ok tokenResponse then json_body tokenResponse
                else Inl (Thrown ''Webhook installation ID failed''))))"

definition acquire_token ::
  "remote \<Rightarrow> service \<Rightarrow> string \<Rightarrow> nat option \<Rightarrow> (error + string) \<times> service" where
  "acquire_token R svc repository installation_id =
     (let dynamic = getInstallationTokenForRepo (github R) (cache_clock R) (token_clock R) svc
                      (split_owner repository) (second_component repository)
      in case installation_id of
           None \<Rightarrow> dynamic
         | Some n \<Rightarrow>
             (if n = 0 then dynamic
              else case direct_exchange R svc n of
                     Inr installationToken \<Rightarrow> (Inr installationToken, svc)
                   | Inl e \<Rightarrow> dynamic))"

definition to_lower :: "char \<Rightarrow> char" where
  "to_lower c =
     (let n = (of_char c :: nat) in if 65 \<le> n \<and> n \<le> 90 then char_of (n + 32) else c)"

definition codeExtensions :: "string list" where
  "codeExtensions =
     [''js'', ''ts'', ''jsx'', ''tsx'', ''py'', ''java'', ''cpp'', ''c'', ''cs'', ''php'', ''rb'',
      ''go'', ''rs'', ''swift'', ''kt'', ''scala'', ''clj'', ''hs'', ''ml'', ''f90'', ''r'', ''m'',
      ''pl'', ''sh'', ''bash'', ''zsh'', ''fish'', ''ps1'', ''bat'', ''cmd'', ''sql'', ''html'',
      ''css'', ''scss'', ''sass'', ''less'', ''vue'', ''svelte'', ''astro'']"

definition is_code_file :: "pr_file \<Rightarrow> bool" where
  "is_code_file f =
     (let extension = map to_lower (rev (takeWhile (\<lambda>c. c \<noteq> CHR ''.'') (rev (pf_filename f))))
      in extension \<in> set codeExtensions)"

text \<open>One content fetch; every failure inside it yields \<open>null\<close>.\<close>

definition fetch_file :: "remote \<Rightarrow> string \<Rightarrow> string \<Rightarrow> string \<Rightarrow> pr_file \<Rightarrow> FileContent option" where
  "fetch_file R repository sha installationToken f =
     (case get_content R repository (pf_filename f) sha installationToken of
        Inl e \<Rightarrow> None
      | Inr contentResponse \<Rightarrow>
          (if ok contentResponse
           then (case json_body contentResponse of
                   Inl e \<Rightarrow> None
                 | Inr decoded \<Rightarrow>
                     Some \<lparr>filename = pf_filename f, content = decoded, patch = pf_patch f,
                           additions = pf_additions f, deletions = pf_deletions f\<rparr>)
           else None))"

text \<open>\<open>postGitHubComment\<close> catches everything it throws; all it leaves is a log line.\<close>

definition postGitHubComment :: "remote \<Rightarrow> string \<Rightarrow> nat \<Rightarrow> AIReview \<Rightarrow> string \<Rightarrow> bool" where
  "postGitHubComment R repository prNumber rv installationToken =
     (case generateGitHubComment R rv of
        Inl e \<Rightarrow> False
      | Inr comment \<Rightarrow>
          (case post_comment R repository prNumber comment installationToken of
             Inl e \<Rightarrow> False
           | Inr resp \<Rightarrow> ok resp))"

text \<open>A call of \<open>updateReviewStatus\<close> from the job, at the job's clock.\<close>

definition persist :: "remote \<Rightarrow> system \<Rightarrow> nat \<Rightarrow> review_status \<Rightarrow> stored_review \<Rightarrow> system" where
  "persist R sys reviewId st reviewData =
     updateReviewStatus (job_store_reachable R) (update_clock R) sys reviewId st reviewData"

text \<open>
  The body of the \<open>try\<close> in \<open>processAICodeReview\<close>, from the listed files on: the
  system it leaves, and whether it threw. The boolean tells whether the summary comment
  was posted.
\<close>

definition fetched_files ::
  "remote \<Rightarrow> string \<Rightarrow> pull_request \<Rightarrow> string \<Rightarrow> pr_file list \<Rightarrow> FileContent list" where
  "fetched_files R repository pullRequest installationToken codeFiles =
     List.map_filter (fetch_file R repository (head_sha pullRequest) installationToken) codeFiles"

definition review_request :: "string \<Rightarrow> pull_request \<Rightarrow> FileContent list \<Rightarrow> ReviewRequest" where
  "review_request repository pullRequest validFiles =
     \<lparr>rq_repository = repository,
      rq_pullRequest = \<lparr>pr_title = pull_title pullRequest,
                        pr_description = pull_body pullRequest,
                        pr_number = number pullRequest\<rparr>,
      rq_files = validFiles\<rparr>"

definition review_files ::
  "remote \<Rightarrow> system \<Rightarrow> nat \<Rightarrow> string \<Rightarrow> pull_request \<Rightarrow> string \<Rightarrow> pr_file list
     \<Rightarrow> (error + bool) \<times> system" where
  "review_files R sys reviewId repository pullRequest installationToken files =
     (let codeFiles = filter is_code_file files
      in if codeFiles = []
         then (Inr False,
               persist R sys reviewId Completed (literal_review ''No code files to review'' 100))
         else
           (let validFiles = fetched_files R repository pullRequest installationToken codeFiles
            in if validFiles = []
               then (Inr False,
                     persist R sys reviewId Completed
                       (literal_review ''Unable to fetch file contents for review'' 0))
               else
                 (case generateAICodeReview (language R) (models R)
                         (review_request repository pullRequest validFiles) of
                    Inl e \<Rightarrow> (Inl e, sys)
                  | Inr aiReview \<Rightarrow>
                      (Inr (postGitHubComment R repository (number pullRequest) aiReview
                              installationToken),
                       persist R sys reviewId Completed (of_AIReview aiReview)))))"

text \<open>The whole body of the \<open>try\<close>: credentials, file listing, then the rest.\<close>

definition review_body ::
  "remote \<Rightarrow> system \<Rightarrow> nat \<Rightarrow> string \<Rightarrow> pull_request \<Rightarrow> nat option
     \<Rightarrow> (error + bool) \<times> system" where
  "review_body R sys reviewId repository pullRequest installation_id =
     (case acquire_token R (app_service sys) repository installation_id of
        (Inl e, svc) \<Rightarrow> (Inl e, sys\<lparr>app_service := svc\<rparr>)
      | (Inr installationToken, svc) \<Rightarrow>
          (let sys1 = sys\<lparr>app_service := svc\<rparr>
           in case list_files R repository (number pullRequest) installationToken of
                Inl e \<Rightarrow> (Inl e, sys1)
              | Inr filesResponse \<Rightarrow>
                  (if \<not> ok filesResponse then (Inl (Thrown ''Failed to fetch PR files''), sys1)
                   else case json_body filesResponse of
                          Inl e \<Rightarrow> (Inl e, sys1)
                        | Inr files \<Rightarrow>
                            review_files R sys1 reviewId repository pullRequest
                              installationToken files)))"

definition failed_review :: stored_review where
  "failed_review = literal_review ''Review failed due to an error'' 0"

definition processAICodeReview ::
  "remote \<Rightarrow> system \<Rightarrow> nat \<Rightarrow> string \<Rightarrow> pull_request \<Rightarrow> nat option \<Rightarrow> system" where
  "processAICodeReview R sys reviewId repository pullRequest installation_id =
     (case review_body R sys reviewId repository pullRequest installation_id of
        (Inr posted, sys') \<Rightarrow> sys'
      | (Inl e, sys') \<Rightarrow> persist R sys' reviewId Failed failed_review)"

subsection \<open>The webhook route\<close>

record webhook_payload =
  action :: "string option"
  installation :: "nat option"
  payload_repositories :: "string list option"
  repository :: "(string \<times> nat) option"
  payload_pull_request :: "pull_request option"











subsection \<open>A concrete system\<close>

definition demo_pull :: pull_request where
  "demo_pull = \<lparr>pr_id = 7, number = 3, pull_title = ''Add parser'', pull_body = None,
                 head_sha = ''abc''\<rparr>"




definition demo_doc :: CodeReview where
  "demo_doc =
     \<lparr>doc_id = 1, repositoryId = 11, pullRequestId = 7, repositoryName = ''octo/alpha'',
      doc_status = Completed, review = Some (literal_review ''old'' 50), updatedAt = 100\<rparr>"

definition demo_system :: system where
  "demo_system =
     \<lparr>users = [\<lparr>repositories = [''octo/alpha'']\<rparr>], reviews = [demo_doc], next_id = 2,
      app_service = demo_service\<rparr>"

definition demo_backends :: backends where
  "demo_backends =
     \<lparr>AI_PROVIDER = None, HUGGINGFACE_PROVIDER = None,
      new_OpenAI = Inr (),
      buildReviewPrompt = (\<lambda>rq. Inr ''Review this code''),
      openai = (\<lambda>prompt. Inr (Some ''{\"summary\":\"ok\",\"score\":150}'')),
      ollama = (\<lambda>prompt. Inl (Thrown ''fetch failed'')),
      huggingface = (\<lambda>prompt. Inl (Thrown ''Hugging Face API error''))\<rparr>"

definition demo_remote :: remote where
  "demo_remote =
     \<lparr>github = demo_platform,
      list_files = (\<lambda>repo n token.
         Inr \<lparr>ok = True, status = 200, text_body = [],
              json_body = Inr [\<lparr>pf_filename = ''src/a.ts'', pf_patch = None,
                                pf_additions = 1, pf_deletions = 0\<rparr>]\<rparr>),
      get_content = (\<lambda>repo name sha token.
         Inr \<lparr>ok = True, status = 200, text_body = [], json_body = Inr ''let a = 1''\<rparr>),
      post_comment = (\<lambda>repo n text token. Inl (Thrown ''fetch failed'')),
      generateGitHubComment = (\<lambda>r. Inr ''comment''),
      language = demo_ecma,
      models = demo_backends,
      job_store_reachable = True,
      cache_clock = demo_readings 1000,
      direct_clock = 900,
      token_clock = 1100,
      update_clock = 2000\<rparr>"

definition demo_remote_down :: remote where
  "demo_remote_down =
     demo_remote\<lparr>list_files := (\<lambda>repo n token.
        Inr \<lparr>ok = False, status = 502, text_body = ''Bad Gateway'',
             json_body = Inl (Thrown ''json'')\<rparr>)\<rparr>"

section \<open>Properties of the credential signer and the installation cache\<close>

lemma cache_hit:
  "installationCache svc A = Some e \<Longrightarrow> at_check rd < expiresAt e \<Longrightarrow>
   getInstallationIdForRepo pf rd svc A r = (Inr (installationId e), svc, [])"
  by (simp add: getInstallationIdForRepo_def Let_def)

lemma cache_miss:
  "installationCache svc A = None \<Longrightarrow>
   getInstallationIdForRepo pf rd svc A r =
     (case fetchInstallationIdFromGitHub pf svc (at_sign rd) A r of
        (Inl e, reqs) \<Rightarrow> (Inl e, svc, reqs)
      | (Inr fetched, reqs) \<Rightarrow>
          (Inr fetched,
           svc\<lparr>installationCache := (installationCache svc)(A \<mapsto>
                  \<lparr>installationId = fetched, expiresAt = at_store rd + CACHE_TTL\<rparr>)\<rparr>,
           reqs))"
  by (simp add: getInstallationIdForRepo_def Let_def)

lemma fetch_log_length:
  "length (snd (fetchInstallationIdFromGitHub pf svc t A r)) \<le> 1"
  by (auto simp add: fetchInstallationIdFromGitHub_def split: sum.splits)

lemma fetch_ignores_cache:
  "fetchInstallationIdFromGitHub pf (clearInstallationCache svc B) t A r
   = fetchInstallationIdFromGitHub pf svc t A r"
  by (simp add: fetchInstallationIdFromGitHub_def generateJWT_def clearInstallationCache_def)

lemma fetch_requests:
  "isConfigured svc \<Longrightarrow> generateJWT pf svc t = Inr j \<Longrightarrow>
   snd (fetchInstallationIdFromGitHub pf svc t A r) = [GetInstallation A r j]"
  by (auto simp add: fetchInstallationIdFromGitHub_def isConfigured_def split: sum.splits)

lemma resolve_cases:
  assumes "getInstallationIdForRepo pf rd svc A r = (Inr i, svc1, log1)"
  shows "(\<exists>e. installationCache svc A = Some e \<and> at_check rd < expiresAt e
              \<and> installationId e = i \<and> svc1 = svc \<and> log1 = [])
       \<or> (fetchInstallationIdFromGitHub pf svc (at_sign rd) A r = (Inr i, log1)
           \<and> svc1 = svc\<lparr>installationCache := (installationCache svc)(A \<mapsto>
                          \<lparr>installationId = i, expiresAt = at_store rd + CACHE_TTL\<rparr>)\<rparr>)"
  using assms
  by (auto simp add: getInstallationIdForRepo_def Let_def
      split: option.splits if_splits sum.splits prod.splits)

lemma demo_first:
  "getInstallationIdForRepo demo_platform (demo_readings 1000) demo_service ''octo'' ''alpha''
   = (Inr 42,
      demo_service\<lparr>installationCache :=
        [''octo'' \<mapsto> \<lparr>installationId = 42, expiresAt = 1002 + CACHE_TTL\<rparr>]\<rparr>,
      [GetInstallation ''octo'' ''alpha'' ''assertion''])"
  by (simp add: getInstallationIdForRepo_def fetchInstallationIdFromGitHub_def generateJWT_def
      demo_platform_def demo_service_def demo_readings_def constructor_def Let_def)

lemma demo_configured:
  "appId (config demo_service) = ''12345''" "privateKey (config demo_service) = ''KEY''"
  "installationCache demo_service = Map.empty"
  by (simp_all add: demo_service_def constructor_def)

text \<open>
  C9. With both the app id and the private key configured, \<open>generateJWT\<close> hands the signer a
  payload whose \<open>exp\<close> is its \<open>iat\<close> plus exactly 600 seconds (\<open>iat\<close> being the
  clock reading in whole seconds) and whose issuer is the app id; when either is absent
  (the empty string the constructor puts in its place) it throws the configuration error
  and nothing is signed.
\<close>

theorem generateJWT_expiry_600:
  "(appId (config svc) \<noteq> [] \<and> privateKey (config svc) \<noteq> [] \<longrightarrow>
      (\<exists>p. generateJWT pf svc t = sign pf p (privateKey (config svc)) ''RS256''
           \<and> iat p = t div 1000 \<and> exp p = iat p + 600 \<and> iss p = appId (config svc)))
   \<and> (appId (config svc) = [] \<or> privateKey (config svc) = [] \<longrightarrow>
        generateJWT pf svc t = Inl NotConfigured)"
  by (auto simp add: generateJWT_def Let_def)

theorem generateJWT_expiry_600_witness:
  "appId (config demo_service) \<noteq> [] \<and> privateKey (config demo_service) \<noteq> []
   \<and> (\<exists>p. generateJWT demo_platform demo_service 1700000000123
             = sign demo_platform p ''KEY'' ''RS256''
          \<and> iat p = 1700000000 \<and> exp p = 1700000600)
   \<and> generateJWT demo_platform (constructor None (Some ''KEY'')) 1700000000123
       = Inl NotConfigured"
  using generateJWT_expiry_600 [of demo_service demo_platform 1700000000123]
    generateJWT_expiry_600 [of "constructor None (Some ''KEY'')" demo_platform 1700000000123]
  by (auto simp add: demo_configured constructor_def)

text \<open>
  C2. If resolving account \<open>A\<close> succeeds, the cache then holds an entry for \<open>A\<close> with the
  returned id (with expiry equal to the store-time reading plus 24 hours when this call
  did the lookup), and any later call for any repository of \<open>A\<close> whose clock reading is
  before that expiry returns the same id, leaves the service as it is and issues no
  request: the two calls together issue at most one request.
\<close>

theorem resolve_twice_single_lookup:
  assumes "getInstallationIdForRepo pf rd svc A r1 = (Inr i, svc1, log1)"
  shows "\<exists>e. installationCache svc1 A = Some e \<and> installationId e = i
           \<and> (log1 \<noteq> [] \<longrightarrow> expiresAt e = at_store rd + 24 * 60 * 60 * 1000)
           \<and> (\<forall>pf2 rd2 r2. at_check rd2 < expiresAt e \<longrightarrow>
                  getInstallationIdForRepo pf2 rd2 svc1 A r2 = (Inr i, svc1, [])
                  \<and> length (log1 @ snd (snd (getInstallationIdForRepo pf2 rd2 svc1 A r2))) \<le> 1)"
proof -
  from resolve_cases [OF assms] show ?thesis
  proof
    assume "\<exists>e. installationCache svc A = Some e \<and> at_check rd < expiresAt e
               \<and> installationId e = i \<and> svc1 = svc \<and> log1 = []"
    then obtain e where e: "installationCache svc A = Some e" "installationId e = i"
      "svc1 = svc" "log1 = []" by blast
    have "\<forall>pf2 rd2 r2. at_check rd2 < expiresAt e \<longrightarrow>
             getInstallationIdForRepo pf2 rd2 svc1 A r2 = (Inr i, svc1, [])
             \<and> length (log1 @ snd (snd (getInstallationIdForRepo pf2 rd2 svc1 A r2))) \<le> 1"
      using e by (simp add: cache_hit)
    with e show ?thesis by blast
  next
    assume m: "fetchInstallationIdFromGitHub pf svc (at_sign rd) A r1 = (Inr i, log1)
           \<and> svc1 = svc\<lparr>installationCache := (installationCache svc)(A \<mapsto>
                          \<lparr>installationId = i, expiresAt = at_store rd + CACHE_TTL\<rparr>)\<rparr>"
    define e where "e = \<lparr>installationId = i, expiresAt = at_store rd + CACHE_TTL\<rparr>"
    have c: "installationCache svc1 A = Some e" using m by (simp add: e_def)
    have l: "length log1 \<le> 1"
      using fetch_log_length [of pf svc "at_sign rd" A r1] m by simp
    have "\<forall>pf2 rd2 r2. at_check rd2 < expiresAt e \<longrightarrow>
             getInstallationIdForRepo pf2 rd2 svc1 A r2 = (Inr i, svc1, [])
             \<and> length (log1 @ snd (snd (getInstallationIdForRepo pf2 rd2 svc1 A r2))) \<le> 1"
      using cache_hit [OF c] l by (simp add: e_def)
    moreover have "installationId e = i" "expiresAt e = at_store rd + 24 * 60 * 60 * 1000"
      by (simp_all add: e_def CACHE_TTL_def)
    ultimately show ?thesis using c by blast
  qed
qed

theorem resolve_twice_single_lookup_witness:
  "getInstallationIdForRepo demo_platform (demo_readings 1000) demo_service ''octo'' ''alpha''
     = (Inr 42,
        demo_service\<lparr>installationCache :=
          [''octo'' \<mapsto> \<lparr>installationId = 42, expiresAt = 1002 + CACHE_TTL\<rparr>]\<rparr>,
        [GetInstallation ''octo'' ''alpha'' ''assertion''])
   \<and> getInstallationIdForRepo demo_platform (demo_readings 5000)
        (demo_service\<lparr>installationCache :=
          [''octo'' \<mapsto> \<lparr>installationId = 42, expiresAt = 1002 + CACHE_TTL\<rparr>]\<rparr>)
        ''octo'' ''beta''
     = (Inr 42,
        demo_service\<lparr>installationCache :=
          [''octo'' \<mapsto> \<lparr>installationId = 42, expiresAt = 1002 + CACHE_TTL\<rparr>]\<rparr>,
        [])"
proof -
  let ?svc1 = "demo_service\<lparr>installationCache :=
                 [''octo'' \<mapsto> \<lparr>installationId = 42, expiresAt = 1002 + CACHE_TTL\<rparr>]\<rparr>"
  from resolve_twice_single_lookup [OF demo_first]
  obtain e where e: "installationCache ?svc1 ''octo'' = Some e"
    and w: "\<forall>pf2 rd2 r2. at_check rd2 < expiresAt e \<longrightarrow>
              getInstallationIdForRepo pf2 rd2 ?svc1 ''octo'' r2 = (Inr 42, ?svc1, [])
              \<and> length ([GetInstallation ''octo'' ''alpha'' ''assertion'']
                   @ snd (snd (getInstallationIdForRepo pf2 rd2 ?svc1 ''octo'' r2))) \<le> 1"
    by blast
  from e have "expiresAt e = 1002 + CACHE_TTL" by auto
  then have "at_check (demo_readings 5000) < expiresAt e"
    by (simp add: demo_readings_def CACHE_TTL_def)
  with w have "getInstallationIdForRepo demo_platform (demo_readings 5000) ?svc1 ''octo'' ''beta''
     = (Inr 42, ?svc1, [])" by blast
  with demo_first show ?thesis by simp
qed

lemma resolve_stale_or_absent:
  assumes "\<forall>c. installationCache svc A = Some c \<longrightarrow> expiresAt c \<le> at_check rd"
  shows "getInstallationIdForRepo pf rd svc A r =
     (case fetchInstallationIdFromGitHub pf svc (at_sign rd) A r of
        (Inl e, reqs) \<Rightarrow> (Inl e, svc, reqs)
      | (Inr fetched, reqs) \<Rightarrow>
          (Inr fetched,
           svc\<lparr>installationCache := (installationCache svc)(A \<mapsto>
                  \<lparr>installationId = fetched, expiresAt = at_store rd + CACHE_TTL\<rparr>)\<rparr>,
           reqs))"
  using assms by (cases "installationCache svc A") (auto simp add: getInstallationIdForRepo_def Let_def)

lemma fetch_not_ok:
  assumes "isConfigured svc" "generateJWT pf svc t = Inr j"
    "fetch_installation pf A r j = Inr resp" "\<not> ok resp"
  shows "fetchInstallationIdFromGitHub pf svc t A r
         = (Inl (LookupFailed (status resp) (text_body resp)), [GetInstallation A r j])"
  using assms by (simp add: fetchInstallationIdFromGitHub_def isConfigured_def)

lemma fetch_failure_cases:
  "fst (fetchInstallationIdFromGitHub pf svc t A r) = Inl e \<longleftrightarrow>
     (\<not> isConfigured svc \<and> e = NotConfigured)
     \<or> (isConfigured svc \<and> generateJWT pf svc t = Inl e)
     \<or> (\<exists>j. isConfigured svc \<and> generateJWT pf svc t = Inr j
            \<and> (fetch_installation pf A r j = Inl e
                \<or> (\<exists>resp. fetch_installation pf A r j = Inr resp
                      \<and> (if ok resp then json_body resp = Inl e
                          else e = LookupFailed (status resp) (text_body resp)))))"
  by (auto simp add: fetchInstallationIdFromGitHub_def isConfigured_def split: sum.splits)

lemma resolve_propagates:
  assumes "\<forall>c. installationCache svc A = Some c \<longrightarrow> expiresAt c \<le> at_check rd"
    and "fst (fetchInstallationIdFromGitHub pf svc (at_sign rd) A r) = Inl e"
  shows "getInstallationIdForRepo pf rd svc A r
         = (Inl e, svc, snd (fetchInstallationIdFromGitHub pf svc (at_sign rd) A r))"
proof -
  obtain x reqs where f: "fetchInstallationIdFromGitHub pf svc (at_sign rd) A r = (x, reqs)"
    by (cases "fetchInstallationIdFromGitHub pf svc (at_sign rd) A r")
  with assms(2) have "x = Inl e" by simp
  with f resolve_stale_or_absent [OF assms(1), of pf r] show ?thesis by simp
qed

text \<open>
  C3. Whenever \<open>getInstallationIdForRepo\<close> fails, the service it leaves behind is the
  one it started from: nothing is stored for the account and every existing entry is
  untouched. When no fresh entry is cached, every failure of the lookup is the failure
  of the call: the same error reaches the caller, after the lookup's requests, with the
  cache unchanged. The lookup fails exactly when the app is not configured, when signing
  the assertion throws, when the request throws, when the platform answers with a non-ok
  status (404 when the app is not installed; the error carries status and body), or when
  the body of an ok answer cannot be read.
\<close>

theorem resolve_failure_not_cached:
  "(getInstallationIdForRepo pf rd svc A r = (Inl e, svc1, log1) \<longrightarrow> svc1 = svc)
   \<and> ((\<forall>c. installationCache svc A = Some c \<longrightarrow> expiresAt c \<le> at_check rd)
        \<and> fst (fetchInstallationIdFromGitHub pf svc (at_sign rd) A r) = Inl e \<longrightarrow>
      getInstallationIdForRepo pf rd svc A r
        = (Inl e, svc, snd (fetchInstallationIdFromGitHub pf svc (at_sign rd) A r)))
   \<and> (fst (fetchInstallationIdFromGitHub pf svc t A r) = Inl e \<longleftrightarrow>
        (\<not> isConfigured svc \<and> e = NotConfigured)
        \<or> (isConfigured svc \<and> generateJWT pf svc t = Inl e)
        \<or> (\<exists>j. isConfigured svc \<and> generateJWT pf svc t = Inr j
               \<and> (fetch_installation pf A r j = Inl e
                   \<or> (\<exists>resp. fetch_installation pf A r j = Inr resp
                         \<and> (if ok resp then json_body resp = Inl e
                             else e = LookupFailed (status resp) (text_body resp))))))"
proof (intro conjI impI)
  assume "getInstallationIdForRepo pf rd svc A r = (Inl e, svc1, log1)"
  then show "svc1 = svc"
    by (auto simp add: getInstallationIdForRepo_def Let_def
        split: option.splits if_splits sum.splits prod.splits)
next
  assume "(\<forall>c. installationCache svc A = Some c \<longrightarrow> expiresAt c \<le> at_check rd)
        \<and> fst (fetchInstallationIdFromGitHub pf svc (at_sign rd) A r) = Inl e"
  then show "getInstallationIdForRepo pf rd svc A r
        = (Inl e, svc, snd (fetchInstallationIdFromGitHub pf svc (at_sign rd) A r))"
    by (simp add: resolve_propagates)
next
  show "fst (fetchInstallationIdFromGitHub pf svc t A r) = Inl e \<longleftrightarrow>
        (\<not> isConfigured svc \<and> e = NotConfigured)
        \<or> (isConfigured svc \<and> generateJWT pf svc t = Inl e)
        \<or> (\<exists>j. isConfigured svc \<and> generateJWT pf svc t = Inr j
               \<and> (fetch_installation pf A r j = Inl e
                   \<or> (\<exists>resp. fetch_installation pf A r j = Inr resp
                         \<and> (if ok resp then json_body resp = Inl e
                             else e = LookupFailed (status resp) (text_body resp)))))"
    by (rule fetch_failure_cases)
qed

lemma demo_ghost:
  "isConfigured demo_service"
  "generateJWT demo_platform demo_service t = Inr ''assertion''"
  "fetch_installation demo_platform ''ghost'' ''repo'' ''assertion''
   = Inr \<lparr>ok = False, status = 404, text_body = ''Not Found'', json_body = Inl (Thrown ''json'')\<rparr>"
  "fetchInstallationIdFromGitHub demo_platform demo_service t ''ghost'' ''repo''
   = (Inl (LookupFailed 404 ''Not Found''), [GetInstallation ''ghost'' ''repo'' ''assertion''])"
  "fetchInstallationIdFromGitHub
     (demo_platform\<lparr>fetch_installation := (\<lambda>owner repo jwt. Inl (Thrown ''ECONNRESET''))\<rparr>)
     demo_service t ''octo'' ''alpha''
   = (Inl (Thrown ''ECONNRESET''), [GetInstallation ''octo'' ''alpha'' ''assertion''])"
  by (simp_all add: isConfigured_def generateJWT_def demo_platform_def demo_configured
      fetchInstallationIdFromGitHub_def)

theorem resolve_failure_not_cached_witness:
  "getInstallationIdForRepo demo_platform (demo_readings 1000) demo_service ''ghost'' ''repo''
     = (Inl (LookupFailed 404 ''Not Found''), demo_service,
        [GetInstallation ''ghost'' ''repo'' ''assertion''])
   \<and> getInstallationIdForRepo
       (demo_platform\<lparr>fetch_installation := (\<lambda>owner repo jwt. Inl (Thrown ''ECONNRESET''))\<rparr>)
       (demo_readings 1000) demo_service ''octo'' ''alpha''
     = (Inl (Thrown ''ECONNRESET''), demo_service,
        [GetInstallation ''octo'' ''alpha'' ''assertion''])
   \<and> installationCache demo_service ''ghost'' = None"
  using resolve_failure_not_cached [where pf = demo_platform and rd = "demo_readings 1000"
      and svc = demo_service and A = "''ghost''" and r = "''repo''"
      and e = "LookupFailed 404 ''Not Found''"]
    resolve_failure_not_cached [where
      pf = "demo_platform\<lparr>fetch_installation := (\<lambda>owner repo jwt. Inl (Thrown ''ECONNRESET''))\<rparr>"
      and rd = "demo_readings 1000"
      and svc = demo_service and A = "''octo''" and r = "''alpha''"
      and e = "Thrown ''ECONNRESET''"]
  by (simp add: demo_ghost demo_configured)

lemma clear_repositories_cache:
  "installationCache (clear_repositories svc rs) A
   = (if A \<in> split_owner ` set rs then None else installationCache svc A)"
  by (induction rs arbitrary: svc) (auto simp add: clearInstallationCache_def)

lemma clear_repositories_config: "config (clear_repositories svc rs) = config svc"
  by (induction rs arbitrary: svc) (auto simp add: clearInstallationCache_def)

lemma fetch_depends_on_config:
  "config svc' = config svc \<Longrightarrow>
   fetchInstallationIdFromGitHub pf svc' t A r = fetchInstallationIdFromGitHub pf svc t A r"
  by (simp add: fetchInstallationIdFromGitHub_def generateJWT_def)

lemma resolve_after_absent:
  assumes "installationCache svc' A = None" "config svc' = config svc"
  shows "fst (getInstallationIdForRepo pf rd svc' A r)
           = fst (fetchInstallationIdFromGitHub pf svc (at_sign rd) A r)
       \<and> snd (snd (getInstallationIdForRepo pf rd svc' A r))
           = snd (fetchInstallationIdFromGitHub pf svc (at_sign rd) A r)"
proof -
  obtain x reqs where f: "fetchInstallationIdFromGitHub pf svc (at_sign rd) A r = (x, reqs)"
    by (cases "fetchInstallationIdFromGitHub pf svc (at_sign rd) A r")
  have g: "fetchInstallationIdFromGitHub pf svc' (at_sign rd) A r = (x, reqs)"
    using f fetch_depends_on_config [OF assms(2), of pf "at_sign rd" A r] by simp
  show ?thesis
    by (cases x) (simp_all add: cache_miss [OF assms(1)] f g)
qed

text \<open>
  C4. After \<open>clearInstallationCache\<close> for account \<open>A\<close> the cache has no entry for \<open>A\<close>,
  and clearing twice is clearing once. The next \<open>getInstallationIdForRepo\<close> for \<open>A\<close>
  therefore takes the lookup path: its outcome and its requests are those of
  \<open>fetchInstallationIdFromGitHub\<close>, never a cached id, and with the app configured and
  the assertion signed it issues exactly the one installation request. The same holds,
  after an \<open>installation\<close> event with action \<open>deleted\<close>, for the owner of every
  repository in the event's list.
\<close>

theorem invalidate_forces_lookup:
  "installationCache (clearInstallationCache svc A) A = None
   \<and> clearInstallationCache (clearInstallationCache svc A) A = clearInstallationCache svc A
   \<and> fst (getInstallationIdForRepo pf rd (clearInstallationCache svc A) A r)
       = fst (fetchInstallationIdFromGitHub pf svc (at_sign rd) A r)
   \<and> snd (snd (getInstallationIdForRepo pf rd (clearInstallationCache svc A) A r))
       = snd (fetchInstallationIdFromGitHub pf svc (at_sign rd) A r)
   \<and> (isConfigured svc \<and> generateJWT pf svc (at_sign rd) = Inr j \<longrightarrow>
        snd (snd (getInstallationIdForRepo pf rd (clearInstallationCache svc A) A r))
          = [GetInstallation A r j])
   \<and> (\<forall>full_name \<in> set rs.
        installationCache (installation_event svc (Some ''deleted'') (Some rs)) (split_owner full_name)
          = None
        \<and> fst (getInstallationIdForRepo pf rd (installation_event svc (Some ''deleted'') (Some rs))
                 (split_owner full_name) r)
            = fst (fetchInstallationIdFromGitHub pf svc (at_sign rd) (split_owner full_name) r)
        \<and> snd (snd (getInstallationIdForRepo pf rd (installation_event svc (Some ''deleted'') (Some rs))
                 (split_owner full_name) r))
            = snd (fetchInstallationIdFromGitHub pf svc (at_sign rd) (split_owner full_name) r))"
proof -
  have a: "installationCache (clearInstallationCache svc A) A = None"
    by (simp add: clearInstallationCache_def)
  have b: "clearInstallationCache (clearInstallationCache svc A) A = clearInstallationCache svc A"
    by (simp add: clearInstallationCache_def)
  have cfg: "config (clearInstallationCache svc A) = config svc"
    by (simp add: clearInstallationCache_def)
  note c = resolve_after_absent [OF a cfg, of pf rd r]
  have d: "isConfigured svc \<and> generateJWT pf svc (at_sign rd) = Inr j \<longrightarrow>
        snd (snd (getInstallationIdForRepo pf rd (clearInstallationCache svc A) A r))
          = [GetInstallation A r j]"
  proof
    assume "isConfigured svc \<and> generateJWT pf svc (at_sign rd) = Inr j"
    then have "snd (fetchInstallationIdFromGitHub pf svc (at_sign rd) A r) = [GetInstallation A r j]"
      by (simp add: fetch_requests)
    with conjunct2 [OF c]
    show "snd (snd (getInstallationIdForRepo pf rd (clearInstallationCache svc A) A r))
          = [GetInstallation A r j]"
      by (rule trans)
  qed
  have e: "\<forall>full_name \<in> set rs.
        installationCache (installation_event svc (Some ''deleted'') (Some rs)) (split_owner full_name)
          = None
        \<and> fst (getInstallationIdForRepo pf rd (installation_event svc (Some ''deleted'') (Some rs))
                 (split_owner full_name) r)
            = fst (fetchInstallationIdFromGitHub pf svc (at_sign rd) (split_owner full_name) r)
        \<and> snd (snd (getInstallationIdForRepo pf rd (installation_event svc (Some ''deleted'') (Some rs))
                 (split_owner full_name) r))
            = snd (fetchInstallationIdFromGitHub pf svc (at_sign rd) (split_owner full_name) r)"
  proof
    fix full_name assume m: "full_name \<in> set rs"
    let ?svc' = "installation_event svc (Some ''deleted'') (Some rs)"
    have n: "installationCache ?svc' (split_owner full_name) = None"
      using m by (simp add: installation_event_def clear_repositories_cache)
    have k: "config ?svc' = config svc"
      by (simp add: installation_event_def clear_repositories_config)
    note q = resolve_after_absent [OF n k, of pf rd r]
    show "installationCache ?svc' (split_owner full_name) = None
        \<and> fst (getInstallationIdForRepo pf rd ?svc' (split_owner full_name) r)
            = fst (fetchInstallationIdFromGitHub pf svc (at_sign rd) (split_owner full_name) r)
        \<and> snd (snd (getInstallationIdForRepo pf rd ?svc' (split_owner full_name) r))
            = snd (fetchInstallationIdFromGitHub pf svc (at_sign rd) (split_owner full_name) r)"
      by (intro conjI, rule n, rule conjunct1 [OF q], rule conjunct2 [OF q])
  qed
  show ?thesis
    by (intro conjI, rule a, rule b, rule conjunct1 [OF c], rule conjunct2 [OF c], rule d, rule e)
qed

lemma demo_cached_facts:
  "isConfigured demo_cached"
  "generateJWT demo_platform demo_cached t = Inr ''assertion''"
  "installationCache demo_cached ''octo'' = Some \<lparr>installationId = 42, expiresAt = 1002 + CACHE_TTL\<rparr>"
  by (simp_all add: demo_cached_def isConfigured_def generateJWT_def demo_platform_def
      demo_configured)

theorem invalidate_forces_lookup_witness:
  "installationCache demo_cached ''octo'' \<noteq> None
   \<and> installationCache (clearInstallationCache demo_cached ''octo'') ''octo'' = None
   \<and> snd (snd (getInstallationIdForRepo demo_platform (demo_readings 9000)
                  (clearInstallationCache demo_cached ''octo'') ''octo'' ''alpha''))
       = [GetInstallation ''octo'' ''alpha'' ''assertion'']
   \<and> installationCache (installation_event demo_cached (Some ''deleted'') (Some [''octo/alpha'']))
         ''octo'' = None"
  using invalidate_forces_lookup [where svc = demo_cached and A = "''octo''"
      and pf = demo_platform and rd = "demo_readings 9000" and r = "''alpha''"
      and j = "''assertion''" and rs = "[''octo/alpha'']"]
  by (simp add: demo_cached_facts split_owner_def
      fetch_requests [OF demo_cached_facts(1) demo_cached_facts(2)])

section \<open>Properties of the response parser\<close>

lemma bind_err_Inr:
  "bind_err m f = Inr r \<longleftrightarrow> (\<exists>v. m = Inr v \<and> f v = Inr r)"
  by (cases m) (simp_all add: bind_err_def)

lemma math_clamp_cases:
  "math_max (Fin 0) (math_min (Fin 100) n) = NaN
   \<or> (\<exists>q. math_max (Fin 0) (math_min (Fin 100) n) = Fin q \<and> 0 \<le> q \<and> q \<le> 100)"
  by (cases n) (auto simp add: min_def max_def)

lemma build_review_Inr:
  "build_review E parsed = Inr r \<longleftrightarrow>
     (\<exists>p_summary p_score n p_suggestions ss p_issues is p_positive.
        get_prop parsed ''summary'' = Inr p_summary
      \<and> get_prop parsed ''score'' = Inr p_score
      \<and> to_number E (or_else p_score (JNum (Fin 0))) = Inr n
      \<and> get_prop parsed ''suggestions'' = Inr p_suggestions
      \<and> array_map (make_item ''suggestion_'' ''improvement'' ''Suggestion''
            ''Code improvement suggestion'' ''low'') p_suggestions = Inr ss
      \<and> get_prop parsed ''issues'' = Inr p_issues
      \<and> array_map (make_item ''issue_'' ''bug'' ''Issue''
            ''Code issue found'' ''medium'') p_issues = Inr is
      \<and> get_prop parsed ''positiveAspects'' = Inr p_positive
      \<and> r = \<lparr>summary = or_else p_summary (JStr ''No summary provided''),
               score = math_max (Fin 0) (math_min (Fin 100) n),
               suggestions = ss, issues = is,
               positiveAspects = or_else p_positive (JArr [])\<rparr>)"
  unfolding build_review_def bind_err_Inr
  by (rule iffI; (elim exE conjE)?; blast)



lemma digits_nonempty: "digits n \<noteq> []"
  by (subst digits.simps) simp














lemma build_review_score_numeric:
  assumes "build_review E parsed = Inr r" and "score r \<noteq> NaN"
  shows "score_in_range (score r)"
proof -
  from assms(1) obtain n where "score r = math_max (Fin 0) (math_min (Fin 100) n)"
    unfolding build_review_Inr by auto
  with assms(2) math_clamp_cases [of n] show ?thesis
    by (auto simp add: score_in_range_def)
qed

lemma build_review_score_examples:
  "map_option score (projr_opt (build_review E (JObj [(''score'', JNum (Fin 150))]))) = Some (Fin 100)"
  "map_option score (projr_opt (build_review E (JObj [(''score'', JNum (Fin (- 5)))]))) = Some (Fin 0)"
  "map_option score (projr_opt (build_review E (JObj []))) = Some (Fin 0)"
  by (simp_all add: build_review_def bind_err_def or_else_def array_map_def projr_opt_def)

lemma clean_score_object: "cleanResponse ''{\"score\":{}}'' = ''{\"score\":{}}''"
  by (simp add: cleanResponse_def trim_def is_space_def strip_fence_close_def)

text \<open>
  C5 (the code at the failing input). For the response text \<open>{"score":{}}\<close>, which
  \<open>JSON.parse\<close> reads as an object whose \<open>score\<close> is an empty object, the parser
  returns a result whose score is \<open>NaN\<close>: \<open>parsed.score || 0\<close> keeps the (truthy)
  object, \<open>Math.min(100, {})\<close> is \<open>NaN\<close>, and so is \<open>Math.max(0, NaN)\<close>. The score
  is therefore not in the range from 0 to 100.
\<close>

theorem parseAIResponse_score_nan:
  assumes "JSON_parse E ''{\"score\":{}}'' = Some (JObj [(''score'', JObj [])])"
  shows "\<exists>r. parseAIResponse E ''{\"score\":{}}'' = Inr r \<and> score r = NaN
           \<and> \<not> score_in_range (score r)"
  using assms
  by (simp add: parseAIResponse_def parse_attempt_def clean_score_object parse_and_build_def
      build_review_def bind_err_def or_else_def array_map_def score_in_range_def)

theorem parseAIResponse_score_nan_witness:
  "JSON_parse demo_ecma ''{\"score\":{}}'' = Some (JObj [(''score'', JObj [])])
   \<and> (\<exists>r. parseAIResponse demo_ecma ''{\"score\":{}}'' = Inr r \<and> score r = NaN)"
proof -
  have h: "JSON_parse demo_ecma ''{\"score\":{}}'' = Some (JObj [(''score'', JObj [])])"
    by (simp add: demo_ecma_def)
  from parseAIResponse_score_nan [OF h] h show ?thesis by blast
qed

subsection \<open>Cleaning a wrapped payload\<close>

lemma prefix_append_short:
  assumes "prefix pat (y @ t)" "length pat \<le> length y"
  shows "prefix pat y"
  by (rule prefix_length_prefix [OF assms(1) _ assms(2)]) simp

lemma prefix_append_foreign:
  assumes "pat \<noteq> []" "last pat \<notin> set t"
  shows "prefix pat (y @ t) \<longleftrightarrow> prefix pat y"
proof
  assume a: "prefix pat (y @ t)"
  show "prefix pat y"
  proof (rule ccontr)
    assume n: "\<not> prefix pat y"
    with a obtain us where us: "pat = y @ us" "prefix us t"
      by (auto simp add: prefix_append)
    with n have ne: "us \<noteq> []" by auto
    with us(1) have "last pat = last us" by simp
    moreover from us(2) have "set us \<subseteq> set t" by (rule set_mono_prefix)
    ultimately have "last pat \<in> set t" using ne last_in_set by fastforce
    with assms(2) show False by simp
  qed
next
  assume "prefix pat y"
  then show "prefix pat (y @ t)" by (rule prefix_prefix)
qed

lemma strip_think_copy:
  "c \<noteq> CHR ''<'' \<Longrightarrow> strip_think 0 (c # cs) = c # strip_think 0 cs"
  by simp

lemma strip_think_copy_all:
  "\<forall>c \<in> set xs. c \<noteq> CHR ''<'' \<Longrightarrow> strip_think 0 (xs @ ys) = xs @ strip_think 0 ys"
  by (induction xs) auto

lemma strip_think_skip:
  "strip_think (length xs + n) (xs @ ys) = strip_think n ys"
  by (induction xs) simp_all

lemma find_close_bound:
  "find_close y = Some k \<Longrightarrow> k + 8 \<le> length y"
proof (induction y arbitrary: k)
  case Nil
  then show ?case by simp
next
  case (Cons c cs)
  show ?case
  proof (cases "prefix ''</think>'' (c # cs)")
    case True
    then have "length ''</think>'' \<le> length (c # cs)" by (rule prefix_length_le)
    with True Cons.prems show ?thesis by simp
  next
    case False
    with Cons.prems obtain k' where "find_close cs = Some k'" "k = Suc k'" by auto
    with Cons.IH [of k'] show ?thesis by simp
  qed
qed

lemma find_close_append_foreign:
  assumes "CHR ''>'' \<notin> set t"
  shows "find_close (y @ t) = find_close y"
proof (induction y)
  case Nil
  have "find_close t = None" using assms
    by (induction t) (auto dest: set_mono_prefix)
  then show ?case by simp
next
  case (Cons c cs)
  have "prefix ''</think>'' ((c # cs) @ t) \<longleftrightarrow> prefix ''</think>'' (c # cs)"
    by (rule prefix_append_foreign) (use assms in simp_all)
  with Cons show ?case by simp
qed

lemma find_close_first:
  assumes "\<not> sublist ''</think>'' (r @ ''</think'')"
  shows "find_close (r @ ''</think>'' @ p) = Some (length r)"
  using assms
proof (induction r)
  case Nil
  then show ?case by simp
next
  case (Cons c r)
  have "\<not> prefix ''</think>'' (c # r @ ''</think>'' @ p)"
  proof
    assume a: "prefix ''</think>'' (c # r @ ''</think>'' @ p)"
    have e: "c # r @ ''</think>'' @ p = ((c # r) @ ''</think'') @ (''>'' @ p)" by simp
    from a have "prefix ''</think>'' (((c # r) @ ''</think'') @ (''>'' @ p))"
      unfolding e .
    then have "prefix ''</think>'' ((c # r) @ ''</think'')"
      by (rule prefix_append_short) simp
    then have "sublist ''</think>'' ((c # r) @ ''</think'')"
      by (rule prefix_imp_sublist)
    with Cons.prems show False by (rule notE)
  qed
  moreover have "\<not> sublist ''</think>'' (r @ ''</think'')"
  proof
    assume "sublist ''</think>'' (r @ ''</think'')"
    then have "sublist ''</think>'' (c # (r @ ''</think''))"
      unfolding sublist_Cons_right [of _ c] by (rule disjI2)
    with Cons.prems show False by simp
  qed
  ultimately show ?case using Cons.IH by simp
qed

lemma strip_think_wrapper:
  assumes "\<not> sublist ''</think>'' (r @ ''</think'')"
  shows "strip_think 0 (''<think>'' @ r @ ''</think>'' @ rest) = strip_think 0 rest"
proof -
  have "strip_think 0 (''<think>'' @ r @ ''</think>'' @ rest)
        = strip_think (length r + 14) (''think>'' @ r @ ''</think>'' @ rest)"
    using find_close_first [OF assms, of rest] by simp
  also have "\<dots> = strip_think 0 rest"
    using strip_think_skip [of "''think>'' @ r @ ''</think>''" 0 rest]
    by (simp add: eval_nat_numeral)
  finally show ?thesis .
qed

lemma strip_think_no_open:
  assumes "\<not> prefix ''<think>'' (c # cs)"
  shows "strip_think 0 (c # cs) = c # strip_think 0 cs"
  by (simp only: strip_think.simps assms if_False)

lemma strip_think_open_none:
  assumes "prefix ''<think>'' (c # cs)" "find_close (drop 6 cs) = None"
  shows "strip_think 0 (c # cs) = c # strip_think 0 cs"
  by (simp only: strip_think.simps assms if_True option.case)

lemma strip_think_open_some:
  assumes "prefix ''<think>'' (c # cs)" "find_close (drop 6 cs) = Some k"
  shows "strip_think 0 (c # cs) = strip_think (k + 14) cs"
  by (simp only: strip_think.simps assms if_True option.case)

lemma strip_think_append_foreign:
  assumes "CHR ''<'' \<notin> set t" "CHR ''>'' \<notin> set t"
  shows "n \<le> length x \<Longrightarrow> strip_think n (x @ t) = strip_think n x @ t"
proof (induction x arbitrary: n)
  case Nil
  have "strip_think 0 (t @ []) = t @ strip_think 0 []"
    by (rule strip_think_copy_all) (use assms(1) in auto)
  with Nil show ?case by simp
next
  case (Cons c x)
  show ?case
  proof (cases n)
    case (Suc m)
    with Cons.prems have "m \<le> length x" by simp
    with Cons.IH [of m] Suc show ?thesis by simp
  next
    case 0
    have p: "prefix ''<think>'' ((c # x) @ t) \<longleftrightarrow> prefix ''<think>'' (c # x)"
      by (rule prefix_append_foreign) (use assms(2) in simp_all)
    show ?thesis
    proof (cases "prefix ''<think>'' (c # x)")
      case False
      with p have np: "\<not> prefix ''<think>'' (c # (x @ t))" by simp
      have "strip_think 0 ((c # x) @ t) = c # strip_think 0 (x @ t)"
        using strip_think_no_open [OF np] by simp
      also have "\<dots> = c # strip_think 0 x @ t"
        using Cons.IH [of 0] by simp
      also have "\<dots> = strip_think 0 (c # x) @ t"
        using strip_think_no_open [OF False] by simp
      finally show ?thesis using 0 by simp
    next
      case True
      then have "length ''<think>'' \<le> length (c # x)" by (rule prefix_length_le)
      then have len: "6 \<le> length x" by simp
      then have d: "drop 6 (x @ t) = drop 6 x @ t" by simp
      have f: "find_close (drop 6 (x @ t)) = find_close (drop 6 x)"
        unfolding d by (rule find_close_append_foreign [OF assms(2)])
      from True p have pt: "prefix ''<think>'' (c # (x @ t))" by simp
      show ?thesis
      proof (cases "find_close (drop 6 x)")
        case None
        with f have ft: "find_close (drop 6 (x @ t)) = None" by simp
        have "strip_think 0 ((c # x) @ t) = c # strip_think 0 (x @ t)"
          using strip_think_open_none [OF pt ft] by simp
        also have "\<dots> = c # strip_think 0 x @ t"
          using Cons.IH [of 0] by simp
        also have "\<dots> = strip_think 0 (c # x) @ t"
          using strip_think_open_none [OF True None] by simp
        finally show ?thesis using 0 by simp
      next
        case (Some k)
        with f have ft: "find_close (drop 6 (x @ t)) = Some k" by simp
        from find_close_bound [OF Some] len have "k + 14 \<le> length x" by simp
        note ih = Cons.IH [OF this]
        have "strip_think 0 ((c # x) @ t) = strip_think (k + 14) (x @ t)"
          using strip_think_open_some [OF pt ft] by simp
        also have "\<dots> = strip_think (k + 14) x @ t" by (rule ih)
        also have "\<dots> = strip_think 0 (c # x) @ t"
          using strip_think_open_some [OF True Some] by simp
        finally show ?thesis using 0 by simp
      qed
    qed
  qed
qed

lemma strip_fence_open_no:
  assumes "\<not> prefix ''```json'' (c # cs)"
  shows "strip_fence_open (c # cs) = c # strip_fence_open cs"
  by (simp only: strip_fence_open.simps assms if_False)

lemma strip_fence_open_yes:
  assumes "prefix ''```json'' (c # cs)"
  shows "strip_fence_open (c # cs) = strip_fence_open (dropWhile is_space (drop 6 cs))"
  by (simp only: strip_fence_open.simps assms if_True)

lemma strip_fence_open_copy_all:
  "\<forall>c \<in> set xs. c \<noteq> CHR ''`'' \<Longrightarrow> strip_fence_open (xs @ ys) = xs @ strip_fence_open ys"
  by (induction xs) auto

lemma strip_fence_open_none:
  "CHR ''j'' \<notin> set t \<Longrightarrow> strip_fence_open t = t"
proof (induction t)
  case Nil
  then show ?case by simp
next
  case (Cons c cs)
  have "\<not> prefix ''```json'' (c # cs)"
  proof
    assume "prefix ''```json'' (c # cs)"
    then have "set ''```json'' \<subseteq> set (c # cs)" by (rule set_mono_prefix)
    with Cons.prems show False by auto
  qed
  then have "strip_fence_open (c # cs) = c # strip_fence_open cs"
    by (rule strip_fence_open_no)
  with Cons show ?case by simp
qed

lemma dropWhile_keeps_last:
  assumes "ys \<noteq> []" "\<not> P (last ys)"
  shows "dropWhile P ys \<noteq> [] \<and> last (dropWhile P ys) = last ys"
proof -
  have ne: "dropWhile P ys \<noteq> []"
    using assms by (auto simp add: dropWhile_eq_Nil_conv)
  have "last (takeWhile P ys @ dropWhile P ys) = last (dropWhile P ys)"
    using ne by (rule last_appendR)
  then have "last ys = last (dropWhile P ys)"
    by (simp only: takeWhile_dropWhile_id)
  with ne show ?thesis by simp
qed

lemma fence_open_suffix:
  assumes "prefix ''```json'' (c # cs)" "last (c # cs) = CHR ''}''"
  shows "drop 6 cs \<noteq> [] \<and> last (drop 6 cs) = CHR ''}''"
proof -
  from assms(1) obtain zs where z: "c # cs = ''```json'' @ zs"
    by (auto simp add: prefix_def)
  then have cs: "cs = ''``json'' @ zs" by simp
  have "zs \<noteq> []"
  proof
    assume "zs = []"
    with z assms(2) show False by simp
  qed
  moreover from this z assms(2) have "last zs = CHR ''}''" by simp
  ultimately show ?thesis by (simp add: cs)
qed

lemma brace_not_space: "\<not> is_space (CHR ''}'')" "\<not> is_space (CHR ''{'')"
  "\<not> is_space (CHR ''`'')" "\<not> is_space (CHR ''<'')"
  by (simp_all add: is_space_def)

lemma space_chars:
  "is_space c \<Longrightarrow> c \<noteq> CHR ''<'' \<and> c \<noteq> CHR ''>'' \<and> c \<noteq> CHR ''`''
     \<and> c \<noteq> CHR ''j'' \<and> c \<noteq> CHR ''n'' \<and> c \<noteq> CHR ''{'' \<and> c \<noteq> CHR ''}''"
  by (auto simp add: is_space_def)

lemma strip_fence_open_last:
  "x \<noteq> [] \<Longrightarrow> last x = CHR ''}'' \<Longrightarrow>
   strip_fence_open x \<noteq> [] \<and> last (strip_fence_open x) = CHR ''}''"
proof (induction x rule: strip_fence_open.induct)
  case 1
  then show ?case by simp
next
  case (2 c cs)
  show ?case
  proof (cases "prefix ''```json'' (c # cs)")
    case True
    from fence_open_suffix [OF True "2.prems"(2)]
    have d: "drop 6 cs \<noteq> []" "last (drop 6 cs) = CHR ''}''" by simp_all
    then have ns: "\<not> is_space (last (drop 6 cs))" by (simp add: brace_not_space)
    from dropWhile_keeps_last [of "drop 6 cs" is_space, OF d(1) ns] d(2)
    have "dropWhile is_space (drop 6 cs) \<noteq> []"
      "last (dropWhile is_space (drop 6 cs)) = CHR ''}''" by simp_all
    with "2.IH"(1) [OF True] strip_fence_open_yes [OF True] show ?thesis by simp
  next
    case False
    note e = strip_fence_open_no [OF False]
    show ?thesis
    proof (cases "cs = []")
      case True
      with e "2.prems" show ?thesis by simp
    next
      case ne: False
      with "2.prems" have "last cs = CHR ''}''" by simp
      with "2.IH"(2) [OF False ne] e show ?thesis by simp
    qed
  qed
qed

lemma strip_fence_open_append:
  assumes "CHR ''n'' \<notin> set t"
  shows "x = [] \<or> last x = CHR ''}'' \<Longrightarrow>
         strip_fence_open (x @ t) = strip_fence_open x @ strip_fence_open t"
proof (induction x rule: strip_fence_open.induct)
  case 1
  then show ?case by simp
next
  case (2 c cs)
  then have l: "last (c # cs) = CHR ''}''" by simp
  have "prefix ''```json'' ((c # cs) @ t) \<longleftrightarrow> prefix ''```json'' (c # cs)"
    by (rule prefix_append_foreign) (use assms in simp_all)
  then have p: "prefix ''```json'' (c # (cs @ t)) \<longleftrightarrow> prefix ''```json'' (c # cs)"
    by (simp only: append_Cons)
  show ?case
  proof (cases "prefix ''```json'' (c # cs)")
    case True
    then have pt: "prefix ''```json'' (c # (cs @ t))" by (rule iffD2 [OF p])
    from fence_open_suffix [OF True l]
    have d: "drop 6 cs \<noteq> []" "last (drop 6 cs) = CHR ''}''" by simp_all
    then have ns: "\<not> is_space (last (drop 6 cs))" by (simp add: brace_not_space)
    from d(1) have len: "6 \<le> length cs" by (cases "6 \<le> length cs") simp_all
    have "\<exists>z \<in> set (drop 6 cs). \<not> is_space z"
      using d(1) ns last_in_set by blast
    then have dw: "dropWhile is_space (drop 6 cs @ t) = dropWhile is_space (drop 6 cs) @ t"
      by (auto simp add: dropWhile_append1)
    from dropWhile_keeps_last [of "drop 6 cs" is_space, OF d(1) ns] d(2)
    have k: "last (dropWhile is_space (drop 6 cs)) = CHR ''}''" by simp
    have "strip_fence_open ((c # cs) @ t)
          = strip_fence_open (dropWhile is_space (drop 6 (cs @ t)))"
      using strip_fence_open_yes [OF pt] by simp
    also have "\<dots> = strip_fence_open (dropWhile is_space (drop 6 cs) @ t)"
      using len dw by simp
    also have "\<dots> = strip_fence_open (dropWhile is_space (drop 6 cs)) @ strip_fence_open t"
      using "2.IH"(1) [OF True] k by blast
    also have "\<dots> = strip_fence_open (c # cs) @ strip_fence_open t"
      using strip_fence_open_yes [OF True] by simp
    finally show ?thesis .
  next
    case False
    then have npt: "\<not> prefix ''```json'' (c # (cs @ t))" by (simp only: p not_False_eq_True)
    have c: "cs = [] \<or> last cs = CHR ''}''" using l by (cases "cs = []") simp_all
    have "strip_fence_open ((c # cs) @ t) = c # strip_fence_open (cs @ t)"
      using strip_fence_open_no [OF npt] by simp
    also have "\<dots> = c # strip_fence_open cs @ strip_fence_open t"
      using "2.IH"(2) [OF False c] by simp
    also have "\<dots> = strip_fence_open (c # cs) @ strip_fence_open t"
      using strip_fence_open_no [OF False] by simp
    finally show ?thesis .
  qed
qed

lemma strip_fence_open_head:
  assumes "\<forall>c \<in> set ws1. is_space c" "y \<noteq> []" "\<not> is_space (hd y)"
  shows "strip_fence_open (''```json'' @ ws1 @ y) = strip_fence_open y"
proof -
  have "prefix ''```json'' (CHR ''`'' # (''``json'' @ ws1 @ y))" by simp
  from strip_fence_open_yes [OF this]
  have "strip_fence_open (''```json'' @ ws1 @ y)
        = strip_fence_open (dropWhile is_space (ws1 @ y))" by simp
  also have "dropWhile is_space (ws1 @ y) = dropWhile is_space y"
    using assms(1) by simp
  also have "\<dots> = y" using assms(2,3) by (cases y) simp_all
  finally show ?thesis .
qed

lemma trim_core:
  assumes "\<forall>c \<in> set wa. is_space c" "\<forall>c \<in> set wb. is_space c"
    and "u \<noteq> []" "\<not> is_space (hd u)" "\<not> is_space (last u)"
  shows "trim (wa @ u @ wb) = u"
proof -
  have "dropWhile is_space (wa @ u @ wb) = dropWhile is_space (u @ wb)"
    using assms(1) by simp
  also have "\<dots> = u @ wb" using assms(3,4) by (cases u) simp_all
  finally have 1: "dropWhile is_space (wa @ u @ wb) = u @ wb" .
  have "dropWhile is_space (rev wb @ rev u) = dropWhile is_space (rev u)"
    by (rule dropWhile_append2) (use assms(2) in simp)
  also have "\<dots> = rev u"
    using assms(3,5) by (cases "rev u") (simp_all add: hd_rev [symmetric])
  finally have 2: "dropWhile is_space (rev (u @ wb)) = rev u" by simp
  show ?thesis by (simp only: trim_def 1 2 rev_rev_ident)
qed

lemma trim_id:
  assumes "u \<noteq> []" "\<not> is_space (hd u)" "\<not> is_space (last u)"
  shows "trim u = u"
  using trim_core [of "[]" "[]" u] assms by simp

lemma strip_fence_close_id:
  assumes "u \<noteq> []" "last u = CHR ''}''"
  shows "strip_fence_close u = u"
proof -
  from assms obtain z zs where r: "rev u = z # zs" "z = CHR ''}''"
    by (cases "rev u") (simp_all add: hd_rev [symmetric])
  then have "dropWhile is_space (rev u) = CHR ''}'' # zs"
    by (simp add: brace_not_space)
  then show ?thesis by (simp add: strip_fence_close_def)
qed

lemma strip_fence_close_fence:
  assumes "\<forall>c \<in> set wb. is_space c"
  shows "strip_fence_close (y @ wb @ ''```'') = y @ wb"
proof -
  have "rev (y @ wb @ ''```'') = ''```'' @ rev wb @ rev y" by simp
  then have "dropWhile is_space (rev (y @ wb @ ''```'')) = ''```'' @ rev wb @ rev y"
    by (simp add: brace_not_space)
  then show ?thesis by (simp add: strip_fence_close_def)
qed

lemma braced_strip_think:
  assumes "braced p"
  shows "braced (strip_think 0 p)"
proof -
  from assms obtain cs where c: "p = CHR ''{'' # cs"
    by (cases p) (simp_all add: braced_def)
  from assms have "p = butlast p @ [CHR ''}'']"
    by (metis append_butlast_last_id braced_def)
  then obtain x where x: "p = x @ [CHR ''}'']" ..
  have "strip_think 0 (x @ [CHR ''}'']) = strip_think 0 x @ [CHR ''}'']"
    by (rule strip_think_append_foreign) simp_all
  with x have l: "strip_think 0 p = strip_think 0 x @ [CHR ''}'']" by simp
  have h: "strip_think 0 p = CHR ''{'' # strip_think 0 cs"
    unfolding c by (rule strip_think_copy) simp
  from h have "hd (strip_think 0 p) = CHR ''{''" "strip_think 0 p \<noteq> []" by simp_all
  moreover from l have "last (strip_think 0 p) = CHR ''}''" by simp
  ultimately show ?thesis by (simp add: braced_def)
qed

lemma braced_strip_fence_open:
  assumes "braced q"
  shows "braced (strip_fence_open q)"
proof -
  from assms obtain cs where c: "q = CHR ''{'' # cs"
    by (cases q) (simp_all add: braced_def)
  have "\<not> prefix ''```json'' (CHR ''{'' # cs)" by simp
  then have "strip_fence_open (CHR ''{'' # cs) = CHR ''{'' # strip_fence_open cs"
    by (rule strip_fence_open_no)
  with c have "hd (strip_fence_open q) = CHR ''{''" by simp
  moreover from assms have "strip_fence_open q \<noteq> [] \<and> last (strip_fence_open q) = CHR ''}''"
    by (intro strip_fence_open_last) (simp_all add: braced_def)
  ultimately show ?thesis by (simp add: braced_def)
qed

lemma braced_ends:
  assumes "braced u"
  shows "u \<noteq> []" "\<not> is_space (hd u)" "\<not> is_space (last u)" "last u = CHR ''}''"
    "hd u = CHR ''{''"
  using assms by (simp_all add: braced_def brace_not_space)

lemma clean_bare:
  assumes "braced p"
  shows "cleanResponse p = strip_fence_open (strip_think 0 p)"
proof -
  let ?u = "strip_fence_open (strip_think 0 p)"
  have u: "braced ?u"
    using assms by (intro braced_strip_fence_open braced_strip_think)
  have 1: "trim p = p" using braced_ends [OF assms] by (intro trim_id)
  have 2: "strip_fence_close ?u = ?u" using braced_ends [OF u] by (intro strip_fence_close_id)
  have 3: "trim ?u = ?u" using braced_ends [OF u] by (intro trim_id)
  show ?thesis by (simp only: cleanResponse_def 1 2 3)
qed

lemma think_of_fence:
  assumes "\<forall>c \<in> set ws1. is_space c" "\<forall>c \<in> set ws2. is_space c"
  shows "strip_think 0 (fence_wrap ws1 ws2 p) = fence_wrap ws1 ws2 (strip_think 0 p)"
proof -
  have a: "\<forall>c \<in> set (''```json'' @ ws1). c \<noteq> CHR ''<''"
    using assms(1) by (auto dest: space_chars)
  have b: "CHR ''<'' \<notin> set (ws2 @ ''```'')" "CHR ''>'' \<notin> set (ws2 @ ''```'')"
    using assms(2) by (auto dest: space_chars)
  have "strip_think 0 ((''```json'' @ ws1) @ (p @ (ws2 @ ''```'')))
        = (''```json'' @ ws1) @ strip_think 0 (p @ (ws2 @ ''```''))"
    using a by (rule strip_think_copy_all)
  also have "strip_think 0 (p @ (ws2 @ ''```'')) = strip_think 0 p @ (ws2 @ ''```'')"
    using b by (intro strip_think_append_foreign) simp_all
  finally show ?thesis by (simp add: fence_wrap_def)
qed

lemma open_of_fence:
  assumes "braced q" "\<forall>c \<in> set ws1. is_space c" "\<forall>c \<in> set ws2. is_space c"
  shows "strip_fence_open (fence_wrap ws1 ws2 q) = strip_fence_open q @ ws2 @ ''```''"
proof -
  note e = braced_ends [OF assms(1)]
  have n: "CHR ''n'' \<notin> set (ws2 @ ''```'')" "CHR ''j'' \<notin> set (ws2 @ ''```'')"
    using assms(3) by (auto dest: space_chars)
  have "strip_fence_open (''```json'' @ ws1 @ (q @ (ws2 @ ''```'')))
        = strip_fence_open (q @ (ws2 @ ''```''))"
    using assms(2) e(1,2) by (intro strip_fence_open_head) simp_all
  also have "\<dots> = strip_fence_open q @ strip_fence_open (ws2 @ ''```'')"
    using n(1) e(4) by (intro strip_fence_open_append) simp_all
  also have "strip_fence_open (ws2 @ ''```'') = ws2 @ ''```''"
    using n(2) by (rule strip_fence_open_none)
  finally show ?thesis by (simp add: fence_wrap_def)
qed

lemma clean_fence:
  assumes "braced p" "\<forall>c \<in> set ws1. is_space c" "\<forall>c \<in> set ws2. is_space c"
  shows "cleanResponse (fence_wrap ws1 ws2 p) = strip_fence_open (strip_think 0 p)"
proof -
  let ?q = "strip_think 0 p"
  let ?u = "strip_fence_open ?q"
  have q: "braced ?q" using assms(1) by (rule braced_strip_think)
  have u: "braced ?u" using q by (rule braced_strip_fence_open)
  have "fence_wrap ws1 ws2 p \<noteq> []" "hd (fence_wrap ws1 ws2 p) = CHR ''`''"
    "last (fence_wrap ws1 ws2 p) = CHR ''`''"
    by (simp_all add: fence_wrap_def)
  then have 1: "trim (fence_wrap ws1 ws2 p) = fence_wrap ws1 ws2 p"
    by (intro trim_id) (simp_all add: brace_not_space)
  have 2: "strip_think 0 (fence_wrap ws1 ws2 p) = fence_wrap ws1 ws2 ?q"
    using assms(2,3) by (rule think_of_fence)
  have 3: "strip_fence_open (fence_wrap ws1 ws2 ?q) = ?u @ ws2 @ ''```''"
    using q assms(2,3) by (rule open_of_fence)
  have 4: "strip_fence_close (?u @ ws2 @ ''```'') = ?u @ ws2"
    using assms(3) by (rule strip_fence_close_fence)
  have 5: "trim ([] @ ?u @ ws2) = ?u"
    using assms(3) braced_ends [OF u] by (intro trim_core) simp_all
  show ?thesis using 5 by (simp only: cleanResponse_def 1 2 3 4 append_Nil)
qed

lemma clean_think_prefix:
  assumes "\<not> sublist ''</think>'' (r @ ''</think'')" "\<forall>c \<in> set ws. is_space c"
    and "X \<noteq> []" "\<not> is_space (last X)"
  shows "strip_fence_open (strip_think 0 (trim (think_wrap r ws X)))
         = ws @ strip_fence_open (strip_think 0 X)"
proof -
  have "think_wrap r ws X \<noteq> []" "hd (think_wrap r ws X) = CHR ''<''"
    "last (think_wrap r ws X) = last X"
    using assms(3) by (simp_all add: think_wrap_def)
  then have 1: "trim (think_wrap r ws X) = think_wrap r ws X"
    using assms(4) by (intro trim_id) (simp_all add: brace_not_space)
  have 2: "strip_think 0 (think_wrap r ws X) = strip_think 0 (ws @ X)"
    unfolding think_wrap_def using assms(1) by (rule strip_think_wrapper)
  have 3: "strip_think 0 (ws @ X) = ws @ strip_think 0 X"
    using assms(2) by (intro strip_think_copy_all) (auto dest: space_chars)
  have 4: "strip_fence_open (ws @ strip_think 0 X) = ws @ strip_fence_open (strip_think 0 X)"
    using assms(2) by (intro strip_fence_open_copy_all) (auto dest: space_chars)
  show ?thesis by (simp only: 1 2 3 4)
qed

lemma clean_think:
  assumes "braced p" "\<not> sublist ''</think>'' (r @ ''</think'')" "\<forall>c \<in> set ws. is_space c"
  shows "cleanResponse (think_wrap r ws p) = strip_fence_open (strip_think 0 p)"
proof -
  let ?u = "strip_fence_open (strip_think 0 p)"
  have u: "braced ?u"
    using assms(1) by (intro braced_strip_fence_open braced_strip_think)
  note e = braced_ends [OF assms(1)]
  have 1: "strip_fence_open (strip_think 0 (trim (think_wrap r ws p))) = ws @ ?u"
    using assms(2,3) e(1,3) by (rule clean_think_prefix)
  have 2: "strip_fence_close (ws @ ?u) = ws @ ?u"
    using braced_ends [OF u] by (intro strip_fence_close_id) simp_all
  have 3: "trim (ws @ ?u @ []) = ?u"
    using assms(3) braced_ends [OF u] by (intro trim_core) simp_all
  show ?thesis using 3 by (simp only: cleanResponse_def 1 2 append_Nil2)
qed

lemma clean_think_fence:
  assumes "braced p" "\<not> sublist ''</think>'' (r @ ''</think'')" "\<forall>c \<in> set ws. is_space c"
    and "\<forall>c \<in> set ws1. is_space c" "\<forall>c \<in> set ws2. is_space c"
  shows "cleanResponse (think_wrap r ws (fence_wrap ws1 ws2 p))
         = strip_fence_open (strip_think 0 p)"
proof -
  let ?q = "strip_think 0 p"
  let ?u = "strip_fence_open ?q"
  have q: "braced ?q" using assms(1) by (rule braced_strip_think)
  have u: "braced ?u" using q by (rule braced_strip_fence_open)
  have f: "fence_wrap ws1 ws2 p \<noteq> []" "\<not> is_space (last (fence_wrap ws1 ws2 p))"
    by (simp_all add: fence_wrap_def brace_not_space)
  have 1: "strip_fence_open (strip_think 0 (trim (think_wrap r ws (fence_wrap ws1 ws2 p))))
           = ws @ strip_fence_open (strip_think 0 (fence_wrap ws1 ws2 p))"
    using assms(2,3) f by (rule clean_think_prefix)
  have 2: "strip_think 0 (fence_wrap ws1 ws2 p) = fence_wrap ws1 ws2 ?q"
    using assms(4,5) by (rule think_of_fence)
  have 3: "strip_fence_open (fence_wrap ws1 ws2 ?q) = ?u @ ws2 @ ''```''"
    using q assms(4,5) by (rule open_of_fence)
  have 4: "strip_fence_close (ws @ ?u @ ws2 @ ''```'') = ws @ ?u @ ws2"
    using strip_fence_close_fence [OF assms(5), of "ws @ ?u"] by (simp only: append_assoc)
  have 5: "trim (ws @ ?u @ ws2) = ?u"
    using assms(3,5) braced_ends [OF u] by (intro trim_core) simp_all
  have "cleanResponse (think_wrap r ws (fence_wrap ws1 ws2 p))
        = trim (strip_fence_close (ws @ ?u @ ws2 @ ''```''))"
    by (simp only: cleanResponse_def 1 2 3)
  also have "\<dots> = trim (ws @ ?u @ ws2)" by (simp only: 4)
  finally show ?thesis by (simp only: 5)
qed

lemma parse_depends_on_clean:
  "cleanResponse a = cleanResponse b \<Longrightarrow> parseAIResponse E a = parseAIResponse E b"
  by (simp add: parseAIResponse_def parse_attempt_def)

lemma strip_fence_open_backticks:
  assumes "y \<noteq> []" "hd y \<noteq> CHR ''`''" "hd y \<noteq> CHR ''j''"
  shows "strip_fence_open (''```'' @ y) = ''```'' @ strip_fence_open y"
proof -
  from assms obtain c cs where y: "y = c # cs" "c \<noteq> CHR ''`''" "c \<noteq> CHR ''j''"
    by (cases y) simp_all
  have 1: "\<not> prefix ''```json'' (CHR ''`'' # CHR ''`'' # CHR ''`'' # c # cs)"
    using y(3) by simp
  have 2: "\<not> prefix ''```json'' (CHR ''`'' # CHR ''`'' # c # cs)"
    using y(2) by simp
  have 3: "\<not> prefix ''```json'' (CHR ''`'' # c # cs)"
    using y(2) by simp
  show ?thesis
    unfolding y(1)
    by (simp only: append_Cons append_Nil strip_fence_open_no [OF 1]
        strip_fence_open_no [OF 2] strip_fence_open_no [OF 3])
qed

lemma json_match_braced:
  assumes "braced u" "CHR ''{'' \<notin> set pre"
  shows "json_match (pre @ u) = Some u"
proof -
  from assms(1) obtain after where u: "u = CHR ''{'' # after"
    by (cases u) (simp_all add: braced_def)
  have "after \<noteq> []"
  proof
    assume "after = []"
    with u assms(1) show False by (simp add: braced_def)
  qed
  moreover from this u assms(1) have "last after = CHR ''}''" by (simp add: braced_def)
  ultimately obtain zs where r: "rev after = CHR ''}'' # zs"
    by (cases "rev after") (simp_all add: hd_rev [symmetric])
  have "dropWhile (\<lambda>c. c \<noteq> CHR ''{'') (pre @ u) = dropWhile (\<lambda>c. c \<noteq> CHR ''{'') u"
    by (rule dropWhile_append2) (use assms(2) in auto)
  then have 1: "dropWhile (\<lambda>c. c \<noteq> CHR ''{'') (pre @ u) = CHR ''{'' # after"
    by (simp add: u)
  have 2: "dropWhile (\<lambda>c. c \<noteq> CHR ''}'') (rev after) = CHR ''}'' # zs"
    by (simp add: r)
  have 3: "rev (CHR ''}'' # zs) = after" using r by (metis rev_rev_ident)
  have "json_match (pre @ u) = Some (CHR ''{'' # after)"
    by (simp only: json_match_def 1 2 3 list.case)
  then show ?thesis by (simp only: u)
qed

lemma clean_plain_fence:
  assumes "braced p" "\<forall>c \<in> set ws1. is_space c" "\<forall>c \<in> set ws2. is_space c"
  shows "cleanResponse (plain_fence_wrap ws1 ws2 p)
         = ''```'' @ ws1 @ strip_fence_open (strip_think 0 p)"
proof -
  let ?q = "strip_think 0 p"
  let ?u = "strip_fence_open ?q"
  let ?t = "ws2 @ ''```''"
  have q: "braced ?q" using assms(1) by (rule braced_strip_think)
  have u: "braced ?u" using q by (rule braced_strip_fence_open)
  note eq = braced_ends [OF q] and eu = braced_ends [OF u]
  have "plain_fence_wrap ws1 ws2 p \<noteq> []" "hd (plain_fence_wrap ws1 ws2 p) = CHR ''`''"
    "last (plain_fence_wrap ws1 ws2 p) = CHR ''`''"
    by (simp_all add: plain_fence_wrap_def)
  then have 1: "trim (plain_fence_wrap ws1 ws2 p) = plain_fence_wrap ws1 ws2 p"
    by (intro trim_id) (simp_all add: brace_not_space)
  have a: "\<forall>c \<in> set (''```'' @ ws1). c \<noteq> CHR ''<''"
    using assms(2) by (auto dest: space_chars)
  have b: "CHR ''<'' \<notin> set ?t" "CHR ''>'' \<notin> set ?t" "CHR ''n'' \<notin> set ?t" "CHR ''j'' \<notin> set ?t"
    using assms(3) by (auto dest: space_chars)
  have "strip_think 0 ((''```'' @ ws1) @ (p @ ?t)) = (''```'' @ ws1) @ strip_think 0 (p @ ?t)"
    using a by (rule strip_think_copy_all)
  also have "strip_think 0 (p @ ?t) = ?q @ ?t"
    using b(1,2) by (intro strip_think_append_foreign) simp_all
  finally have 2: "strip_think 0 (plain_fence_wrap ws1 ws2 p) = ''```'' @ (ws1 @ ?q @ ?t)"
    by (simp add: plain_fence_wrap_def)
  have h: "ws1 @ ?q @ ?t \<noteq> []" "hd (ws1 @ ?q @ ?t) \<noteq> CHR ''`''" "hd (ws1 @ ?q @ ?t) \<noteq> CHR ''j''"
    using eq(1,5) assms(2) by (cases ws1; auto dest: space_chars)+
  have "strip_fence_open (''```'' @ (ws1 @ ?q @ ?t)) = ''```'' @ strip_fence_open (ws1 @ (?q @ ?t))"
    using h by (rule strip_fence_open_backticks)
  also have "strip_fence_open (ws1 @ (?q @ ?t)) = ws1 @ strip_fence_open (?q @ ?t)"
    using assms(2) by (intro strip_fence_open_copy_all) (auto dest: space_chars)
  also have "strip_fence_open (?q @ ?t) = ?u @ strip_fence_open ?t"
    using b(3) eq(4) by (intro strip_fence_open_append) simp_all
  also have "strip_fence_open ?t = ?t" using b(4) by (rule strip_fence_open_none)
  finally have 3: "strip_fence_open (''```'' @ (ws1 @ ?q @ ?t)) = (''```'' @ ws1 @ ?u) @ ws2 @ ''```''"
    by simp
  have 4: "strip_fence_close ((''```'' @ ws1 @ ?u) @ ws2 @ ''```'') = (''```'' @ ws1 @ ?u) @ ws2"
    using assms(3) by (rule strip_fence_close_fence)
  have 5: "trim ([] @ (''```'' @ ws1 @ ?u) @ ws2) = ''```'' @ ws1 @ ?u"
    using assms(3) eu(1,4) by (intro trim_core) (simp_all add: brace_not_space)
  show ?thesis using 5 by (simp only: cleanResponse_def 1 2 3 4 append_Nil)
qed

lemma parse_plain_fence:
  assumes "braced p" "\<forall>c \<in> set ws1. is_space c" "\<forall>c \<in> set ws2. is_space c"
    and "\<forall>s. JSON_parse E (''```'' @ s) = None"
  shows "parseAIResponse E (plain_fence_wrap ws1 ws2 p) = parseAIResponse E p"
proof -
  let ?u = "strip_fence_open (strip_think 0 p)"
  have u: "braced ?u"
    using assms(1) by (intro braced_strip_fence_open braced_strip_think)
  have w: "cleanResponse (plain_fence_wrap ws1 ws2 p) = ''```'' @ (ws1 @ ?u)"
    using clean_plain_fence [OF assms(1-3)] by simp
  have b: "cleanResponse p = ?u" using assms(1) by (rule clean_bare)
  have d: "parse_and_build E (''```'' @ (ws1 @ ?u)) = Inl SyntaxError"
    using assms(4) by (simp only: parse_and_build_def option.case)
  have "CHR ''{'' \<notin> set (''```'' @ ws1)" using assms(2) by (auto dest: space_chars)
  from json_match_braced [OF u this]
  have m: "json_match (''```'' @ (ws1 @ ?u)) = Some ?u" by simp
  have m': "json_match ?u = Some ?u" using json_match_braced [OF u, of "[]"] by simp
  have W: "parse_attempt E (plain_fence_wrap ws1 ws2 p)
        = bind_err (parse_and_build E ?u) (\<lambda>r. Inr (Some r))"
    by (simp only: parse_attempt_def Let_def w d m sum.case option.case)
  have B: "parse_attempt E p
        = (case parse_and_build E ?u of Inr r \<Rightarrow> Inr (Some r)
           | Inl e \<Rightarrow> bind_err (parse_and_build E ?u) (\<lambda>r. Inr (Some r)))"
    by (simp only: parse_attempt_def Let_def b m' option.case)
  show ?thesis
    by (cases "parse_and_build E ?u") (simp_all add: parseAIResponse_def W B bind_err_def)
qed

text \<open>
  C7. For a payload delimited by braces, parsing it inside a \<open>```json\<close> fence (with
  white space around the payload), or behind a \<open><think>\<close> block whose first closing
  tag is its own (followed by white space), or behind such a block and inside the fence,
  gives the same result as parsing the bare payload: all four texts clean to the same
  string, whatever \<open>JSON.parse\<close> then makes of it. Inside an untagged \<open>```\<close> fence
  the opening marker survives the cleaning, \<open>JSON.parse\<close> (which accepts no text that
  starts with a backtick) rejects the cleaned text, and the brace match recovers the
  payload, so the result is again that of the bare payload.
\<close>

theorem parse_wrapped_payload:
  assumes "braced p"
    and "\<forall>c \<in> set ws. is_space c" "\<forall>c \<in> set ws1. is_space c" "\<forall>c \<in> set ws2. is_space c"
    and "\<not> sublist ''</think>'' (r @ ''</think'')"
  shows "parseAIResponse E (fence_wrap ws1 ws2 p) = parseAIResponse E p
       \<and> parseAIResponse E (think_wrap r ws p) = parseAIResponse E p
       \<and> parseAIResponse E (think_wrap r ws (fence_wrap ws1 ws2 p)) = parseAIResponse E p
       \<and> ((\<forall>s. JSON_parse E (''```'' @ s) = None) \<longrightarrow>
            parseAIResponse E (plain_fence_wrap ws1 ws2 p) = parseAIResponse E p)"
proof -
  note b = clean_bare [OF assms(1)]
  have "cleanResponse (fence_wrap ws1 ws2 p) = cleanResponse p"
    using clean_fence [OF assms(1,3,4)] b by simp
  then have 1: "parseAIResponse E (fence_wrap ws1 ws2 p) = parseAIResponse E p"
    by (rule parse_depends_on_clean)
  have "cleanResponse (think_wrap r ws p) = cleanResponse p"
    using clean_think [OF assms(1,5,2)] b by simp
  then have 2: "parseAIResponse E (think_wrap r ws p) = parseAIResponse E p"
    by (rule parse_depends_on_clean)
  have "cleanResponse (think_wrap r ws (fence_wrap ws1 ws2 p)) = cleanResponse p"
    using clean_think_fence [OF assms(1,5,2,3,4)] b by simp
  then have 3: "parseAIResponse E (think_wrap r ws (fence_wrap ws1 ws2 p)) = parseAIResponse E p"
    by (rule parse_depends_on_clean)
  have 4: "(\<forall>s. JSON_parse E (''```'' @ s) = None) \<longrightarrow>
            parseAIResponse E (plain_fence_wrap ws1 ws2 p) = parseAIResponse E p"
    using parse_plain_fence [OF assms(1,3,4)] by blast
  show ?thesis by (intro conjI) (rule 1, rule 2, rule 3, rule 4)
qed

lemma demo_payload:
  "braced ''{\"summary\":\"ok\",\"score\":150}''"
  "\<forall>c \<in> set [CHR 0x0A]. is_space c"
  "\<not> sublist ''</think>'' (''hm {x}'' @ ''</think'')"
  "parseAIResponse demo_ecma ''{\"summary\":\"ok\",\"score\":150}''
   = Inr \<lparr>summary = JStr ''ok'', score = Fin 100, suggestions = [], issues = [],
          positiveAspects = JArr []\<rparr>"
  "\<forall>s. JSON_parse demo_ecma (''```'' @ s) = None"
proof -
  show "braced ''{\"summary\":\"ok\",\"score\":150}''" by (simp add: braced_def)
  show "\<forall>c \<in> set [CHR 0x0A]. is_space c" by (simp add: is_space_def)
  show "\<not> sublist ''</think>'' (''hm {x}'' @ ''</think'')"
    by (simp add: sublist_Cons_right)
  have "cleanResponse ''{\"summary\":\"ok\",\"score\":150}'' = ''{\"summary\":\"ok\",\"score\":150}''"
    by (simp add: cleanResponse_def trim_def is_space_def strip_fence_close_def)
  then show "parseAIResponse demo_ecma ''{\"summary\":\"ok\",\"score\":150}''
   = Inr \<lparr>summary = JStr ''ok'', score = Fin 100, suggestions = [], issues = [],
          positiveAspects = JArr []\<rparr>"
    by (simp add: parseAIResponse_def parse_attempt_def parse_and_build_def demo_ecma_def
        build_review_def bind_err_def or_else_def array_map_def)
  show "\<forall>s. JSON_parse demo_ecma (''```'' @ s) = None"
    by (simp add: demo_ecma_def)
qed

theorem parse_wrapped_payload_witness:
  "parseAIResponse demo_ecma
     (think_wrap ''hm {x}'' [CHR 0x0A]
        (fence_wrap [CHR 0x0A] [CHR 0x0A] ''{\"summary\":\"ok\",\"score\":150}''))
   = Inr \<lparr>summary = JStr ''ok'', score = Fin 100, suggestions = [], issues = [],
          positiveAspects = JArr []\<rparr>
   \<and> parseAIResponse demo_ecma
       (fence_wrap [CHR 0x0A] [CHR 0x0A] ''{\"summary\":\"ok\",\"score\":150}'')
     = parseAIResponse demo_ecma ''{\"summary\":\"ok\",\"score\":150}''
   \<and> parseAIResponse demo_ecma
       (plain_fence_wrap [CHR 0x0A] [CHR 0x0A] ''{\"summary\":\"ok\",\"score\":150}'')
     = parseAIResponse demo_ecma ''{\"summary\":\"ok\",\"score\":150}''"
  using parse_wrapped_payload [OF demo_payload(1) demo_payload(2) demo_payload(2)
      demo_payload(2) demo_payload(3), of demo_ecma] demo_payload(5)
  by (simp only: demo_payload(4) simp_thms)

section \<open>Properties of the webhook handler and the review job\<close>







lemma reviews_persist:
  "reviews (persist R sys i st d)
   = (if job_store_reachable R
      then map (\<lambda>r. if doc_id r = i
                     then r\<lparr>doc_status := st, review := Some d, updatedAt := update_clock R\<rparr>
                     else r) (reviews sys)
      else reviews sys)"
  by (simp add: persist_def updateReviewStatus_def findByIdAndUpdate_def)

lemma review_files_throws_iff:
  "fst (review_files R sys i repo pr tok files) = Inl e \<longleftrightarrow>
     filter is_code_file files \<noteq> []
     \<and> fetched_files R repo pr tok (filter is_code_file files) \<noteq> []
     \<and> generateAICodeReview (language R) (models R)
          (review_request repo pr (fetched_files R repo pr tok (filter is_code_file files)))
        = Inl e"
  by (auto simp add: review_files_def Let_def split: sum.splits)

lemma review_files_throws:
  assumes "fst (review_files R sys i repo pr tok files) = Inl e"
  shows "snd (review_files R sys i repo pr tok files) = sys"
  using assms by (auto simp add: review_files_def Let_def split: sum.splits if_splits)

lemma review_files_returns:
  assumes "fst (review_files R sys i repo pr tok files) = Inr posted"
  shows "\<exists>d. snd (review_files R sys i repo pr tok files) = persist R sys i Completed d"
  using assms by (auto simp add: review_files_def Let_def split: sum.splits if_splits)

lemma review_body_throws_iff:
  "fst (review_body R sys i repo pr inst) = Inl e \<longleftrightarrow>
     (\<exists>svc. acquire_token R (app_service sys) repo inst = (Inl e, svc))
     \<or> (\<exists>tok svc. acquire_token R (app_service sys) repo inst = (Inr tok, svc)
           \<and> (list_files R repo (number pr) tok = Inl e
               \<or> (\<exists>resp. list_files R repo (number pr) tok = Inr resp
                     \<and> (if \<not> ok resp then e = Thrown ''Failed to fetch PR files''
                         else json_body resp = Inl e
                              \<or> (\<exists>files. json_body resp = Inr files
                                    \<and> fst (review_files R (sys\<lparr>app_service := svc\<rparr>) i repo pr
                                             tok files) = Inl e)))))"
  by (auto simp add: review_body_def Let_def split: prod.splits sum.splits)

lemma review_body_throws:
  assumes "fst (review_body R sys i repo pr inst) = Inl e"
  shows "reviews (snd (review_body R sys i repo pr inst)) = reviews sys"
  using assms
  by (auto simp add: review_body_def Let_def review_files_throws
      split: prod.splits sum.splits if_splits)

lemma review_body_returns:
  assumes "fst (review_body R sys i repo pr inst) = Inr posted"
  shows "\<exists>d. reviews (snd (review_body R sys i repo pr inst))
             = reviews (persist R sys i Completed d)"
proof -
  from assms obtain tok svc files where
    f: "fst (review_files R (sys\<lparr>app_service := svc\<rparr>) i repo pr tok files) = Inr posted"
    and s: "snd (review_body R sys i repo pr inst)
            = snd (review_files R (sys\<lparr>app_service := svc\<rparr>) i repo pr tok files)"
    by (auto simp add: review_body_def Let_def split: prod.splits sum.splits if_splits)
  from review_files_returns [OF f] obtain d where
    "snd (review_files R (sys\<lparr>app_service := svc\<rparr>) i repo pr tok files)
     = persist R (sys\<lparr>app_service := svc\<rparr>) i Completed d" ..
  with s have "reviews (snd (review_body R sys i repo pr inst))
               = reviews (persist R sys i Completed d)"
    by (simp add: reviews_persist)
  then show ?thesis ..
qed

lemma direct_exchange_comment:
  "direct_exchange (R\<lparr>post_comment := pc, generateGitHubComment := g\<rparr>) svc n
   = direct_exchange R svc n"
  by (simp add: direct_exchange_def cong: sum.case_cong)

lemma acquire_token_comment:
  "acquire_token (R\<lparr>post_comment := pc, generateGitHubComment := g\<rparr>) svc repo inst
   = acquire_token R svc repo inst"
  by (simp add: acquire_token_def direct_exchange_comment Let_def
      cong: sum.case_cong option.case_cong if_cong)

lemma fetch_file_comment:
  "fetch_file (R\<lparr>post_comment := pc, generateGitHubComment := g\<rparr>) = fetch_file R"
  by (intro ext) (simp add: fetch_file_def cong: sum.case_cong)

lemma fetched_files_comment:
  "fetched_files (R\<lparr>post_comment := pc, generateGitHubComment := g\<rparr>) = fetched_files R"
  by (intro ext) (simp add: fetched_files_def fetch_file_comment)

lemma persist_comment:
  "persist (R\<lparr>post_comment := pc, generateGitHubComment := g\<rparr>) = persist R"
  by (intro ext) (simp add: persist_def)

lemma review_files_comment:
  "snd (review_files (R\<lparr>post_comment := pc, generateGitHubComment := g\<rparr>) sys i repo pr tok files)
   = snd (review_files R sys i repo pr tok files)
   \<and> (isl (fst (review_files (R\<lparr>post_comment := pc, generateGitHubComment := g\<rparr>) sys i repo pr
                tok files))
        \<longleftrightarrow> isl (fst (review_files R sys i repo pr tok files)))"
  by (auto simp add: review_files_def fetched_files_comment persist_comment Let_def
      split: sum.splits)

lemma review_body_comment:
  "snd (review_body (R\<lparr>post_comment := pc, generateGitHubComment := g\<rparr>) sys i repo pr inst)
   = snd (review_body R sys i repo pr inst)
   \<and> (isl (fst (review_body (R\<lparr>post_comment := pc, generateGitHubComment := g\<rparr>) sys i repo pr inst))
        \<longleftrightarrow> isl (fst (review_body R sys i repo pr inst)))"
  by (auto simp add: review_body_def acquire_token_comment review_files_comment Let_def
      split: prod.splits sum.splits)

lemma process_throws:
  assumes "fst (review_body R sys i repo pr inst) = Inl e"
  shows "processAICodeReview R sys i repo pr inst
         = persist R (snd (review_body R sys i repo pr inst)) i Failed failed_review"
  using assms by (cases "review_body R sys i repo pr inst") (simp add: processAICodeReview_def)

lemma process_returns:
  assumes "fst (review_body R sys i repo pr inst) = Inr posted"
  shows "processAICodeReview R sys i repo pr inst = snd (review_body R sys i repo pr inst)"
  using assms by (cases "review_body R sys i repo pr inst") (simp add: processAICodeReview_def)

lemma process_comment:
  "processAICodeReview (R\<lparr>post_comment := pc, generateGitHubComment := g\<rparr>) sys i repo pr inst
   = processAICodeReview R sys i repo pr inst"
proof -
  let ?R' = "R\<lparr>post_comment := pc, generateGitHubComment := g\<rparr>"
  note c = review_body_comment [where R = R and pc = pc and g = g and sys = sys and i = i
      and repo = repo and pr = pr and inst = inst]
  show ?thesis
  proof (cases "fst (review_body R sys i repo pr inst)")
    case (Inl e)
    with c obtain e' where "fst (review_body ?R' sys i repo pr inst) = Inl e'"
      by (cases "fst (review_body ?R' sys i repo pr inst)") auto
    from process_throws [OF this] process_throws [OF Inl] c show ?thesis
      by (simp add: persist_comment)
  next
    case (Inr posted)
    with c obtain posted' where "fst (review_body ?R' sys i repo pr inst) = Inr posted'"
      by (cases "fst (review_body ?R' sys i repo pr inst)") auto
    from process_returns [OF this] process_returns [OF Inr] c show ?thesis by simp
  qed
qed

lemma openai_errors_handled:
  assumes "or_default (AI_PROVIDER B) ''openai'' \<noteq> ''ollama''"
    and "or_default (AI_PROVIDER B) ''openai'' \<noteq> ''huggingface''"
    and "new_OpenAI B = Inr ()" "buildReviewPrompt B rq = Inr prompt"
  shows "\<exists>r. generateAICodeReview E B rq = Inr r"
  using assms
  by (auto simp add: generateAICodeReview_def generateOpenAIReview_def bind_err_def Let_def
      split: sum.splits option.splits)

text \<open>
  C1. The body of the \<open>try\<close> in \<open>processAICodeReview\<close> throws exactly when acquiring the
  token throws, when listing the files throws, answers with a non-ok status or has an
  unreadable body, or when, with code files listed and at least one of them fetched,
  generating the review throws. (A failed content fetch is caught where it happens, and
  the parser does not throw.) When the body throws, nothing has been written to the
  store before the throw, and the handler sets the record to \<open>failed\<close> with the
  placeholder result of score 0, provided the store takes the update (otherwise the
  failure to update is logged and the record stays as it was). When the body returns,
  the record is \<open>completed\<close> with the result of the run, under the same proviso. What
  posting the comment does (its rendering, the request, the status of the answer) has no
  effect on the system the job leaves: the record, its status and its stored result are
  those of the run whose comment was posted.
\<close>

theorem review_failure_semantics:
  "(fst (review_body R sys i repo pr inst) = Inl e \<longleftrightarrow>
      (\<exists>svc. acquire_token R (app_service sys) repo inst = (Inl e, svc))
      \<or> (\<exists>tok svc. acquire_token R (app_service sys) repo inst = (Inr tok, svc)
            \<and> (list_files R repo (number pr) tok = Inl e
                \<or> (\<exists>resp. list_files R repo (number pr) tok = Inr resp
                      \<and> (if \<not> ok resp then e = Thrown ''Failed to fetch PR files''
                          else json_body resp = Inl e
                               \<or> (\<exists>files. json_body resp = Inr files
                                     \<and> filter is_code_file files \<noteq> []
                                     \<and> fetched_files R repo pr tok (filter is_code_file files) \<noteq> []
                                     \<and> generateAICodeReview (language R) (models R)
                                          (review_request repo pr
                                             (fetched_files R repo pr tok
                                                (filter is_code_file files)))
                                        = Inl e))))))
   \<and> (fst (review_body R sys i repo pr inst) = Inl e \<longrightarrow>
        reviews (snd (review_body R sys i repo pr inst)) = reviews sys
        \<and> reviews (processAICodeReview R sys i repo pr inst)
            = (if job_store_reachable R
               then map (\<lambda>r. if doc_id r = i
                              then r\<lparr>doc_status := Failed, review := Some failed_review,
                                     updatedAt := update_clock R\<rparr>
                              else r) (reviews sys)
               else reviews sys)
        \<and> failed_review
            = \<lparr>sr_summary = JStr ''Review failed due to an error'', sr_score = Fin 0,
               sr_suggestions = [], sr_issues = [], sr_positiveAspects = None\<rparr>)
   \<and> (fst (review_body R sys i repo pr inst) = Inr posted \<longrightarrow>
        (\<exists>d. reviews (processAICodeReview R sys i repo pr inst)
              = (if job_store_reachable R
                 then map (\<lambda>r. if doc_id r = i
                                then r\<lparr>doc_status := Completed, review := Some d,
                                       updatedAt := update_clock R\<rparr>
                                else r) (reviews sys)
                 else reviews sys)))
   \<and> processAICodeReview (R\<lparr>post_comment := pc, generateGitHubComment := g\<rparr>) sys i repo pr inst
       = processAICodeReview R sys i repo pr inst"
proof (intro conjI impI)
  show "fst (review_body R sys i repo pr inst) = Inl e \<longleftrightarrow>
      (\<exists>svc. acquire_token R (app_service sys) repo inst = (Inl e, svc))
      \<or> (\<exists>tok svc. acquire_token R (app_service sys) repo inst = (Inr tok, svc)
            \<and> (list_files R repo (number pr) tok = Inl e
                \<or> (\<exists>resp. list_files R repo (number pr) tok = Inr resp
                      \<and> (if \<not> ok resp then e = Thrown ''Failed to fetch PR files''
                          else json_body resp = Inl e
                               \<or> (\<exists>files. json_body resp = Inr files
                                     \<and> filter is_code_file files \<noteq> []
                                     \<and> fetched_files R repo pr tok (filter is_code_file files) \<noteq> []
                                     \<and> generateAICodeReview (language R) (models R)
                                          (review_request repo pr
                                             (fetched_files R repo pr tok
                                                (filter is_code_file files)))
                                        = Inl e)))))"
    unfolding review_body_throws_iff review_files_throws_iff ..
next
  assume a: "fst (review_body R sys i repo pr inst) = Inl e"
  then show u: "reviews (snd (review_body R sys i repo pr inst)) = reviews sys"
    by (rule review_body_throws)
  show "reviews (processAICodeReview R sys i repo pr inst)
            = (if job_store_reachable R
               then map (\<lambda>r. if doc_id r = i
                              then r\<lparr>doc_status := Failed, review := Some failed_review,
                                     updatedAt := update_clock R\<rparr>
                              else r) (reviews sys)
               else reviews sys)"
    unfolding process_throws [OF a] reviews_persist u ..
  show "failed_review
            = \<lparr>sr_summary = JStr ''Review failed due to an error'', sr_score = Fin 0,
               sr_suggestions = [], sr_issues = [], sr_positiveAspects = None\<rparr>"
    by (simp add: failed_review_def literal_review_def)
next
  assume b: "fst (review_body R sys i repo pr inst) = Inr posted"
  from review_body_returns [OF b] obtain d where
    "reviews (snd (review_body R sys i repo pr inst)) = reviews (persist R sys i Completed d)" ..
  then have "reviews (processAICodeReview R sys i repo pr inst)
              = (if job_store_reachable R
                 then map (\<lambda>r. if doc_id r = i
                                then r\<lparr>doc_status := Completed, review := Some d,
                                       updatedAt := update_clock R\<rparr>
                                else r) (reviews sys)
                 else reviews sys)"
    unfolding process_returns [OF b] reviews_persist .
  then show "\<exists>d. reviews (processAICodeReview R sys i repo pr inst)
              = (if job_store_reachable R
                 then map (\<lambda>r. if doc_id r = i
                                then r\<lparr>doc_status := Completed, review := Some d,
                                       updatedAt := update_clock R\<rparr>
                                else r) (reviews sys)
                 else reviews sys)" ..
next
  show "processAICodeReview (R\<lparr>post_comment := pc, generateGitHubComment := g\<rparr>) sys i repo pr inst
       = processAICodeReview R sys i repo pr inst"
    by (rule process_comment)
qed

lemma demo_down_throws:
  "fst (review_body demo_remote_down demo_system 1 ''octo/alpha'' demo_pull (Some 99))
   = Inl (Thrown ''Failed to fetch PR files'')"
  by code_simp

lemma demo_comment_fails:
  "fst (review_body demo_remote demo_system 1 ''octo/alpha'' demo_pull (Some 99)) = Inr False"
  by code_simp

lemma demo_completed:
  "reviews (processAICodeReview demo_remote demo_system 1 ''octo/alpha'' demo_pull (Some 99))
   = [demo_doc\<lparr>doc_status := Completed,
               review := Some \<lparr>sr_summary = JStr ''ok'', sr_score = Fin 100, sr_suggestions = [],
                                sr_issues = [], sr_positiveAspects = Some (JArr [])\<rparr>,
               updatedAt := 2000\<rparr>]"
  by code_simp

theorem review_failure_semantics_witness:
  "fst (review_body demo_remote_down demo_system 1 ''octo/alpha'' demo_pull (Some 99))
     = Inl (Thrown ''Failed to fetch PR files'')
   \<and> reviews (processAICodeReview demo_remote_down demo_system 1 ''octo/alpha'' demo_pull (Some 99))
     = [demo_doc\<lparr>doc_status := Failed, review := Some failed_review, updatedAt := 2000\<rparr>]
   \<and> fst (review_body demo_remote demo_system 1 ''octo/alpha'' demo_pull (Some 99)) = Inr False
   \<and> reviews (processAICodeReview
        (demo_remote\<lparr>post_comment := (\<lambda>repo n text token.
             Inr \<lparr>ok = True, status = 201, text_body = [], json_body = Inr ()\<rparr>),
           generateGitHubComment := (\<lambda>r. Inr ''comment'')\<rparr>)
        demo_system 1 ''octo/alpha'' demo_pull (Some 99))
     = reviews (processAICodeReview demo_remote demo_system 1 ''octo/alpha'' demo_pull (Some 99))
   \<and> doc_status (hd (reviews (processAICodeReview demo_remote demo_system 1 ''octo/alpha''
        demo_pull (Some 99)))) = Completed"
proof -
  note down = review_failure_semantics [where R = demo_remote_down and sys = demo_system
      and i = 1 and repo = "''octo/alpha''" and pr = demo_pull and inst = "Some 99"
      and e = "Thrown ''Failed to fetch PR files''"]
  note up = review_failure_semantics [where R = demo_remote and sys = demo_system
      and i = 1 and repo = "''octo/alpha''" and pr = demo_pull and inst = "Some 99"
      and posted = False
      and pc = "\<lambda>repo n text token.
             Inr \<lparr>ok = True, status = 201, text_body = [], json_body = Inr ()\<rparr>"
      and g = "\<lambda>r. Inr ''comment''"]
  have 1: "reviews (processAICodeReview demo_remote_down demo_system 1 ''octo/alpha'' demo_pull
             (Some 99))
     = [demo_doc\<lparr>doc_status := Failed, review := Some failed_review, updatedAt := 2000\<rparr>]"
    using down demo_down_throws
    by (simp add: demo_system_def demo_doc_def demo_remote_down_def demo_remote_def)
  have 2: "reviews (processAICodeReview
        (demo_remote\<lparr>post_comment := (\<lambda>repo n text token.
             Inr \<lparr>ok = True, status = 201, text_body = [], json_body = Inr ()\<rparr>),
           generateGitHubComment := (\<lambda>r. Inr ''comment'')\<rparr>)
        demo_system 1 ''octo/alpha'' demo_pull (Some 99))
     = reviews (processAICodeReview demo_remote demo_system 1 ''octo/alpha'' demo_pull (Some 99))"
    using up by simp
  show ?thesis
    using 1 2 demo_down_throws demo_comment_fails demo_completed by simp
qed








end
